(* ===== verification/Prelude.thy ===== *)
theory Prelude
  imports Main
begin

text \<open>
  Shared vocabulary of the development.  The widget of
  \<^verbatim>\<open>AcceptInvitePage.js\<close> keeps a queue of suspended promise continuations; one of
  them is taken out when the promise it waits on settles.  This theory holds the list
  operation that removes the settled entry, the lemmas on it that the component proofs
  use, lemmas on repeating a handler, and the collection \<open>handler_defs\<close> that the
  component theories fill with the definitions of the handlers.
\<close>

named_theorems handler_defs
  \<open>definitions of the event handlers of the widget, unfolded when a step is computed\<close>

subsection \<open>Removing the settled entry of a queue\<close>

definition remove_nth :: "nat \<Rightarrow> 'a list \<Rightarrow> 'a list" where
  "remove_nth i xs = take i xs @ drop (Suc i) xs"

lemma length_remove_nth [simp]:
  "i < length xs \<Longrightarrow> length (remove_nth i xs) = length xs - 1"
  by (simp add: remove_nth_def)

lemma set_remove_nth_subset:
  "set (remove_nth i xs) \<subseteq> set xs"
  unfolding remove_nth_def
  by (auto dest: in_set_takeD in_set_dropD)

lemma in_set_remove_nth:
  "x \<in> set (remove_nth i xs) \<Longrightarrow> x \<in> set xs"
  using set_remove_nth_subset by fast

lemma remove_nth_Nil [simp]: "remove_nth i [] = []"
  by (simp add: remove_nth_def)

lemma remove_nth_Cons_0 [simp]: "remove_nth 0 (x # xs) = xs"
  by (simp add: remove_nth_def)

lemma remove_nth_append_last [simp]:
  "remove_nth (length xs) (xs @ [y]) = xs"
  by (simp add: remove_nth_def)

text \<open>
  The weight of a queue drops by the weight of the entry that is removed: the lemma the
  termination argument of the event loop rests on.
\<close>

lemma sum_list_remove_nth:
  assumes "i < length xs"
  shows "sum_list (map (f :: 'a \<Rightarrow> nat) (remove_nth i xs)) + f (xs ! i) = sum_list (map f xs)"
proof -
  have "xs = take i xs @ xs ! i # drop (Suc i) xs"
    using assms by (simp add: id_take_nth_drop)
  then have "sum_list (map f xs) =
      sum_list (map f (take i xs)) + f (xs ! i) + sum_list (map f (drop (Suc i) xs))"
    by (metis add.assoc map_append list.map(2) sum_list.Cons sum_list_append)
  then show ?thesis by (simp add: remove_nth_def ac_simps)
qed

lemma nth_in_set_remove_nth:
  "i < length xs \<Longrightarrow> x \<in> set xs \<Longrightarrow> x \<noteq> xs ! i \<Longrightarrow> x \<in> set (remove_nth i xs)"
  by (metis Un_iff id_take_nth_drop remove_nth_def set_ConsD set_append)

lemma list_all_remove_nth [simp]: "list_all P xs \<Longrightarrow> list_all P (remove_nth i xs)"
  by (auto simp: list_all_iff dest: in_set_remove_nth)

lemma length_filter_remove_nth:
  assumes "i < length xs"
  shows "length (filter P (remove_nth i xs)) + (if P (xs ! i) then 1 else 0) = length (filter P xs)"
proof -
  have d: "drop i xs = xs ! i # drop (Suc i) xs"
    using assms by (rule Cons_nth_drop_Suc [symmetric])
  have "length (filter P xs) = length (filter P (take i xs)) + length (filter P (drop i xs))"
    by (metis append_take_drop_id filter_append length_append)
  with d show ?thesis by (simp add: remove_nth_def)
qed

subsection \<open>Repeating a handler\<close>

text \<open>
  An event fires each of its registered handlers in turn: the handler composed with
  itself, \<open>f ^^ n\<close>.  A property that one run of the handler keeps is kept by all.
\<close>

lemma funpow_field:
  assumes "\<And>x. g (f x) = g x"
  shows "g ((f ^^ n) x) = g x"
  by (induction n) (simp_all add: assms)

lemma funpow_preserve:
  assumes "\<And>x. P x \<Longrightarrow> P (f x)"
  shows "P x \<Longrightarrow> P ((f ^^ n) x)"
  by (induction n) (simp_all add: assms)

end
