(* ===== verification/Page.thy ===== *)
theory Page
  imports Prelude
begin

text \<open>
  The data of \<^verbatim>\<open>AcceptInvitePage.js\<close>: the three module-level variables
  (\<^verbatim>\<open>web3Modal\<close>, \<^verbatim>\<open>provider\<close>, \<^verbatim>\<open>selectedAccount\<close>, lines 26--38), the form
  elements of the page the script reads and writes, the promises it is suspended on, and
  the calls it makes into its two collaborators (the Web3Modal dialog and the web3 client).
  A JavaScript value that may be \<^verbatim>\<open>undefined\<close> or \<^verbatim>\<open>null\<close> is an \<open>option\<close>.
\<close>

subsection \<open>Collaborator values\<close>

text \<open>
  A provider object returned by \<^verbatim>\<open>web3Modal.connect()\<close>.  Objects are told apart by an
  identity; \<open>has_close\<close> says whether \<^verbatim>\<open>provider.close\<close> is defined (WalletConnect
  providers have it, injected browser providers do not).
\<close>

record wallet_provider =
  pid :: nat
  has_close :: bool

text \<open>The options object of \<^verbatim>\<open>new Web3Modal({cacheProvider, providerOptions})\<close>.\<close>

record modal_config =
  cacheProvider :: bool
  infuraId :: string

subsection \<open>The form\<close>

text \<open>
  The elements the script touches, by selector: \<^verbatim>\<open>.username\<close>,
  \<^verbatim>\<open>#field-signature\<close>, \<^verbatim>\<open>#field-signature-request\<close> (the challenge the server put
  in the page; the script only reads it), \<^verbatim>\<open>.btn-login\<close> (its \<^verbatim>\<open>disabled\<close> flag)
  and \<^verbatim>\<open>#waiting-for-signature-msg\<close> (its text).
\<close>

record form =
  username :: string
  field_signature :: string
  field_signature_request :: string
  btn_login_disabled :: bool
  waiting_for_signature_msg :: string

definition msg_choose :: string where
  "msg_choose = ''Please choose an account to proceed.''"

definition msg_waiting :: string where
  "msg_waiting = ''The join button will activate once you have proven your identity by providing the requested signature.''"

definition msg_thanks :: string where
  "msg_thanks = ''Thank you! You can now join the project.''"

definition msg_refused :: string where
  "msg_refused = ''You cannot join the project unless you prove your identity. Please use the switch account link above to get back to choosing an account.''"

lemmas msg_defs = msg_choose_def msg_waiting_def msg_thanks_def msg_refused_def

text \<open>
  Assigning a JavaScript value to an input's \<^verbatim>\<open>value\<close> converts it to a string;
  \<^verbatim>\<open>undefined\<close> becomes the text \<^verbatim>\<open>"undefined"\<close>.  Reading \<^verbatim>\<open>accounts[0]\<close> of an
  empty array gives \<^verbatim>\<open>undefined\<close>.
\<close>

fun js_string :: "string option \<Rightarrow> string" where
  "js_string None = ''undefined''"
| "js_string (Some a) = a"

fun first_account :: "string list \<Rightarrow> string option" where
  "first_account [] = None"
| "first_account (a # _) = Some a"

subsection \<open>Suspended continuations and observable effects\<close>

text \<open>
  Each \<^verbatim>\<open>await\<close> of the script, and the \<^verbatim>\<open>.then\<close> on the signature request,
  suspends the rest of a handler until a promise settles.  A \<open>task\<close> names such a
  suspension point with the values its continuation captured:
  \<^item> \<open>Await_close p\<close>: \<^verbatim>\<open>onConnect\<close> at \<^verbatim>\<open>await provider.close()\<close> (line 97);
  \<^item> \<open>Await_clear\<close>: \<^verbatim>\<open>onConnect\<close> at \<^verbatim>\<open>await web3Modal.clearCachedProvider()\<close> (line 100);
  \<^item> \<open>Await_connect\<close>: \<^verbatim>\<open>onConnect\<close> at \<^verbatim>\<open>provider = await web3Modal.connect()\<close>,
    inside its \<^verbatim>\<open>try\<close> (line 107);
  \<^item> \<open>Await_accounts w\<close>: \<^verbatim>\<open>fetchAccountData\<close> at \<^verbatim>\<open>await web3.eth.getAccounts()\<close>
    (line 64), where \<^verbatim>\<open>web3\<close> was built on the provider \<open>w\<close> current at the call;
  \<^item> \<open>Await_sign w m a\<close>: \<^verbatim>\<open>web3.eth.personal.sign(m, a).then(onSigned,
    onSignatureAborted)\<close> (lines 72--73).
\<close>

datatype task =
    Await_close wallet_provider
  | Await_clear
  | Await_connect
  | Await_accounts "wallet_provider option"
  | Await_sign "wallet_provider option" string "string option"

text \<open>The calls the script makes into its collaborators, in the order it makes them.\<close>

datatype ext_call =
    Call_close nat
  | Call_clearCachedProvider
  | Call_connect
  | Call_getAccounts "wallet_provider option"
  | Call_personal_sign string "string option"

text \<open>
  Console output: the two \<^verbatim>\<open>console.log\<close> lines of \<^verbatim>\<open>onConnect\<close> and the report
  the browser prints for a promise rejection that no handler catches.
\<close>

datatype log_line =
    Log_opening_dialog
  | Log_no_wallet_connection
  | Log_unhandled_rejection

subsection \<open>The page state\<close>

text \<open>
  \<open>loaded\<close> records that the \<^verbatim>\<open>load\<close> handler has run, which is also when the click
  listener on \<^verbatim>\<open>#btn-switch-account\<close> is registered.  \<open>subscriptions\<close> holds one
  provider identity per \<^verbatim>\<open>provider.on("accountsChanged", ...)\<close> registration; the script
  never removes one.  \<open>received\<close> is not a variable of the script: it records every
  (challenge, account, signature) triple the wallet returned to \<^verbatim>\<open>onSigned\<close>, so that
  the properties can say where the signature in the form came from.
\<close>

type_synonym signing = "string \<times> string option \<times> string"

record page =
  web3Modal :: "modal_config option"
  provider :: "wallet_provider option"
  selectedAccount :: "string option"
  document :: form
  pending :: "task list"
  subscriptions :: "nat list"
  loaded :: bool
  calls :: "ext_call list"
  console :: "log_line list"
  received :: "signing list"

text \<open>The page as the browser delivers it: every module variable undefined.\<close>

definition initial_page :: "form \<Rightarrow> page" where
  "initial_page d =
     \<lparr>web3Modal = None, provider = None, selectedAccount = None, document = d, pending = [],
      subscriptions = [], loaded = False, calls = [], console = [], received = []\<rparr>"

subsection \<open>Facts on the data\<close>

lemma msg_distinct [simp]:
  "msg_choose \<noteq> msg_waiting" "msg_choose \<noteq> msg_thanks" "msg_choose \<noteq> msg_refused"
  "msg_waiting \<noteq> msg_thanks" "msg_waiting \<noteq> msg_refused" "msg_thanks \<noteq> msg_refused"
  "msg_waiting \<noteq> msg_choose" "msg_thanks \<noteq> msg_choose" "msg_refused \<noteq> msg_choose"
  "msg_thanks \<noteq> msg_waiting" "msg_refused \<noteq> msg_waiting" "msg_refused \<noteq> msg_thanks"
  by (simp_all add: msg_defs)

lemma first_account_Some [simp]: "first_account xs = Some a \<longleftrightarrow> xs \<noteq> [] \<and> hd xs = a"
  by (cases xs) auto

lemma first_account_None [simp]: "first_account xs = None \<longleftrightarrow> xs = []"
  by (cases xs) auto

end
