(* ===== verification/Widget.thy ===== *)
theory Widget
  imports Page
begin

text \<open>
  The handlers of \<^verbatim>\<open>AcceptInvitePage.js\<close>, one definition per synchronous segment.
  JavaScript runs a handler without interruption up to its first \<^verbatim>\<open>await\<close>; the rest
  runs later, when the awaited promise settles, as a separate continuation.  So
  \<^verbatim>\<open>fetchAccountData\<close> is two definitions (before and after \<^verbatim>\<open>getAccounts\<close>) and
  \<^verbatim>\<open>onConnect\<close> is five (its start and the continuations after \<^verbatim>\<open>close\<close>,
  \<^verbatim>\<open>clearCachedProvider\<close> and \<^verbatim>\<open>connect\<close>, fulfilled or rejected).  Suspending
  appends a task to \<open>pending\<close>; calling a collaborator appends to \<open>calls\<close>.  Which
  continuation runs when is decided by the event loop of theory \<open>EventLoop\<close>.
\<close>

subsection \<open>\<^verbatim>\<open>init\<close>, lines 40--58\<close>

definition default_modal :: modal_config where
  "default_modal = \<lparr>cacheProvider = False, infuraId = ''DUMMY-ID''\<rparr>"

definition init :: "page \<Rightarrow> page" where
  "init s = s\<lparr>document := (document s)\<lparr>field_signature := '''', btn_login_disabled := True,
                                        waiting_for_signature_msg := msg_choose\<rparr>,
              web3Modal := Some default_modal\<rparr>"

subsection \<open>\<^verbatim>\<open>fetchAccountData\<close>, lines 60--74\<close>

text \<open>
  Up to \<^verbatim>\<open>await web3.eth.getAccounts()\<close>: the client is built on the provider held at
  the time of the call (\<^verbatim>\<open>new Web3(provider)\<close>; the argument some callers pass is
  ignored).
\<close>

definition fetchAccountData :: "page \<Rightarrow> page" where
  "fetchAccountData s =
     s\<lparr>calls := calls s @ [Call_getAccounts (provider s)],
       pending := pending s @ [Await_accounts (provider s)]\<rparr>"

text \<open>
  After the accounts arrived: the first one becomes \<^verbatim>\<open>selectedAccount\<close> (undefined when
  the list is empty), the form is reset to the waiting state, and a signature over the
  challenge of \<^verbatim>\<open>#field-signature-request\<close> is requested.  The request is not awaited:
  its outcome is handled by \<^verbatim>\<open>onSigned\<close> or \<^verbatim>\<open>onSignatureAborted\<close> whenever it comes.
\<close>

definition fetchAccountData_resume :: "wallet_provider option \<Rightarrow> string list \<Rightarrow> page \<Rightarrow> page" where
  "fetchAccountData_resume w accounts s =
     (let acct = first_account accounts;
          challenge = field_signature_request (document s)
      in s\<lparr>selectedAccount := acct,
           document := (document s)\<lparr>username := js_string acct, field_signature := '''',
                                    btn_login_disabled := True,
                                    waiting_for_signature_msg := msg_waiting\<rparr>,
           calls := calls s @ [Call_personal_sign challenge acct],
           pending := pending s @ [Await_sign w challenge acct]\<rparr>)"

subsection \<open>\<^verbatim>\<open>onSigned\<close> and \<^verbatim>\<open>onSignatureAborted\<close>, lines 76--88\<close>

definition onSigned :: "string \<Rightarrow> page \<Rightarrow> page" where
  "onSigned signedMessage s =
     s\<lparr>document := (document s)\<lparr>field_signature := signedMessage, btn_login_disabled := False,
                                 waiting_for_signature_msg := msg_thanks\<rparr>\<rparr>"

definition onSignatureAborted :: "page \<Rightarrow> page" where
  "onSignatureAborted s =
     s\<lparr>document := (document s)\<lparr>field_signature := '''', btn_login_disabled := True,
                                 waiting_for_signature_msg := msg_refused\<rparr>\<rparr>"

subsection \<open>\<^verbatim>\<open>onConnect\<close>, lines 94--119\<close>

text \<open>
  Lines 105--107 up to the \<^verbatim>\<open>await\<close>: log, then open the dialog.  A call on an
  undefined \<^verbatim>\<open>web3Modal\<close> would throw a \<^verbatim>\<open>TypeError\<close> inside the \<^verbatim>\<open>try\<close>, which
  the \<^verbatim>\<open>catch\<close> logs before returning.
\<close>

definition open_dialog :: "page \<Rightarrow> page" where
  "open_dialog s =
     (let s1 = s\<lparr>console := console s @ [Log_opening_dialog]\<rparr>
      in case web3Modal s1 of
           None \<Rightarrow> s1\<lparr>console := console s1 @ [Log_no_wallet_connection]\<rparr>
         | Some _ \<Rightarrow> s1\<lparr>calls := calls s1 @ [Call_connect], pending := pending s1 @ [Await_connect]\<rparr>)"

text \<open>
  The start of \<^verbatim>\<open>onConnect\<close>: a provider that can be closed is closed first and the
  handler suspends; otherwise the dialog opens at once.
\<close>

definition onConnect :: "page \<Rightarrow> page" where
  "onConnect s =
     (case provider s of
        Some p \<Rightarrow>
          if has_close p
          then s\<lparr>calls := calls s @ [Call_close (pid p)], pending := pending s @ [Await_close p]\<rparr>
          else open_dialog s
      | None \<Rightarrow> open_dialog s)"

text \<open>
  A promise rejection nobody handles: the browser reports it, nothing else changes.
  \<^verbatim>\<open>onConnect\<close> and \<^verbatim>\<open>fetchAccountData\<close> are called without a \<^verbatim>\<open>catch\<close>, so a
  rejection inside them ends here.
\<close>

definition unhandled_rejection :: "page \<Rightarrow> page" where
  "unhandled_rejection s = s\<lparr>console := console s @ [Log_unhandled_rejection]\<rparr>"

text \<open>Line 100, after \<^verbatim>\<open>provider.close()\<close> settled.\<close>

definition onConnect_closed :: "page \<Rightarrow> page" where
  "onConnect_closed s =
     (case web3Modal s of
        None \<Rightarrow> unhandled_rejection s
      | Some _ \<Rightarrow> s\<lparr>calls := calls s @ [Call_clearCachedProvider], pending := pending s @ [Await_clear]\<rparr>)"

text \<open>Lines 101--107, after \<^verbatim>\<open>clearCachedProvider()\<close> settled.\<close>

definition onConnect_cleared :: "page \<Rightarrow> page" where
  "onConnect_cleared s = open_dialog (s\<lparr>provider := None\<rparr>)"

text \<open>
  Lines 107 and 113--118, after \<^verbatim>\<open>connect()\<close> returned a provider: store it, subscribe
  to its account changes, fetch the account.
\<close>

definition onConnect_connected :: "wallet_provider \<Rightarrow> page \<Rightarrow> page" where
  "onConnect_connected p s =
     fetchAccountData (s\<lparr>provider := Some p, subscriptions := subscriptions s @ [pid p]\<rparr>)"

text \<open>Lines 108--110, after \<^verbatim>\<open>connect()\<close> rejected (the user closed the dialog).\<close>

definition onConnect_failed :: "page \<Rightarrow> page" where
  "onConnect_failed s = s\<lparr>console := console s @ [Log_no_wallet_connection]\<rparr>"

subsection \<open>The \<^verbatim>\<open>accountsChanged\<close> subscription, lines 114--116\<close>

text \<open>
  A provider emitting \<^verbatim>\<open>accountsChanged\<close> runs every handler registered on it, each
  of which calls \<^verbatim>\<open>fetchAccountData()\<close> (the accounts it is given are ignored).
\<close>

definition accountsChanged :: "nat \<Rightarrow> page \<Rightarrow> page" where
  "accountsChanged q s = (fetchAccountData ^^ count_list (subscriptions s) q) s"

subsection \<open>The \<^verbatim>\<open>load\<close> handler, lines 124--128\<close>

definition load_handler :: "page \<Rightarrow> page" where
  "load_handler s = (onConnect (init s))\<lparr>loaded := True\<rparr>"

declare init_def [handler_defs] fetchAccountData_def [handler_defs]
  fetchAccountData_resume_def [handler_defs] onSigned_def [handler_defs]
  onSignatureAborted_def [handler_defs] open_dialog_def [handler_defs]
  onConnect_def [handler_defs] unhandled_rejection_def [handler_defs]
  onConnect_closed_def [handler_defs] onConnect_cleared_def [handler_defs]
  onConnect_connected_def [handler_defs] onConnect_failed_def [handler_defs]
  load_handler_def [handler_defs]

subsection \<open>What each handler leaves alone\<close>

text \<open>
  Frame facts: the challenge in \<^verbatim>\<open>#field-signature-request\<close> is never written, the
  click listener flag is set only by the load handler, and \<^verbatim>\<open>web3Modal\<close> is written
  only by \<^verbatim>\<open>init\<close>.
\<close>

lemma fetchAccountData_frame [simp]:
  "document (fetchAccountData s) = document s"
  "web3Modal (fetchAccountData s) = web3Modal s"
  "provider (fetchAccountData s) = provider s"
  "loaded (fetchAccountData s) = loaded s"
  "subscriptions (fetchAccountData s) = subscriptions s"
  "received (fetchAccountData s) = received s"
  "selectedAccount (fetchAccountData s) = selectedAccount s"
  "pending (fetchAccountData s) = pending s @ [Await_accounts (provider s)]"
  by (simp_all add: fetchAccountData_def)

lemma continuation_frame [simp]:
  "document (onConnect s) = document s" "loaded (onConnect s) = loaded s"
  "document (onConnect_closed s) = document s" "loaded (onConnect_closed s) = loaded s"
  "document (onConnect_cleared s) = document s" "loaded (onConnect_cleared s) = loaded s"
  "document (onConnect_connected p s) = document s" "loaded (onConnect_connected p s) = loaded s"
  "document (onConnect_failed s) = document s" "loaded (onConnect_failed s) = loaded s"
  "document (unhandled_rejection s) = document s" "loaded (unhandled_rejection s) = loaded s"
  by (simp_all add: handler_defs Let_def split: option.splits)

lemma accountsChanged_frame [simp]:
  "document (accountsChanged q s) = document s"
  "web3Modal (accountsChanged q s) = web3Modal s"
  "provider (accountsChanged q s) = provider s"
  "loaded (accountsChanged q s) = loaded s"
  "subscriptions (accountsChanged q s) = subscriptions s"
  "received (accountsChanged q s) = received s"
  unfolding accountsChanged_def
  by (rule funpow_field, simp)+

lemma pending_accountsChanged:
  "pending (accountsChanged q s) =
     pending s @ replicate (count_list (subscriptions s) q) (Await_accounts (provider s))"
proof -
  have "\<And>n. pending ((fetchAccountData ^^ n) s) = pending s @ replicate n (Await_accounts (provider s))
          \<and> provider ((fetchAccountData ^^ n) s) = provider s"
  proof -
    fix n show "pending ((fetchAccountData ^^ n) s) = pending s @ replicate n (Await_accounts (provider s))
          \<and> provider ((fetchAccountData ^^ n) s) = provider s"
      by (induction n) (simp_all add: replicate_append_same)
  qed
  then show ?thesis by (simp add: accountsChanged_def)
qed

end
