(* ===== verification/EventLoop.thy ===== *)
theory EventLoop
  imports Widget
begin

text \<open>
  The browser's event loop around the widget.  An event is the page finishing loading,
  a click on \<^verbatim>\<open>#btn-switch-account\<close>, a provider emitting \<^verbatim>\<open>accountsChanged\<close>, or
  one pending promise settling (fulfilled with a value, or rejected).  The environment
  (the user, the wallet, the dialog) chooses the events and their order, so every
  interleaving of the suspended continuations is a run.  \<open>event_step\<close> is \<open>None\<close> for an
  event that cannot happen in the state (a second \<^verbatim>\<open>load\<close>, a click before the listener
  exists, a promise that is not pending, a fulfilment value the collaborator never
  produces); \<open>reachable\<close> closes the initial pages under steps.
\<close>

subsection \<open>Events\<close>

datatype jsval =
    JUndefined
  | JProvider wallet_provider
  | JAccounts "string list"
  | JString string

datatype event =
    Load
  | Click_switch_account
  | Accounts_changed nat
  | Resolve nat jsval
  | Reject nat

text \<open>Ghost update: remember what the wallet signed (not a statement of the script).\<close>

definition record_signing :: "signing \<Rightarrow> page \<Rightarrow> page" where
  "record_signing x s = s\<lparr>received := received s @ [x]\<rparr>"

text \<open>
  The continuation of a task when its promise fulfils with a value.  \<^verbatim>\<open>close\<close> and
  \<^verbatim>\<open>clearCachedProvider\<close> may fulfil with anything; \<^verbatim>\<open>connect\<close> fulfils with a
  provider; \<^verbatim>\<open>getAccounts\<close> with an array, and only when the client has a provider;
  \<^verbatim>\<open>personal.sign\<close> with a string, which goes to \<^verbatim>\<open>onSigned\<close>.
\<close>

fun resume :: "task \<Rightarrow> jsval \<Rightarrow> page \<Rightarrow> page option" where
  "resume (Await_close p) v s = Some (onConnect_closed s)"
| "resume Await_clear v s = Some (onConnect_cleared s)"
| "resume Await_connect (JProvider p) s = Some (onConnect_connected p s)"
| "resume (Await_accounts (Some w)) (JAccounts xs) s = Some (fetchAccountData_resume (Some w) xs s)"
| "resume (Await_sign w m a) (JString g) s = Some (record_signing (m, a, g) (onSigned g s))"
| "resume _ _ s = None"

text \<open>
  The continuation of a task when its promise rejects: \<^verbatim>\<open>connect\<close> is inside the
  \<^verbatim>\<open>try\<close> of \<^verbatim>\<open>onConnect\<close>, the signature request has \<^verbatim>\<open>onSignatureAborted\<close> as
  its rejection handler, and every other rejection escapes to the browser.
\<close>

fun abort :: "task \<Rightarrow> page \<Rightarrow> page" where
  "abort (Await_close p) s = unhandled_rejection s"
| "abort Await_clear s = unhandled_rejection s"
| "abort Await_connect s = onConnect_failed s"
| "abort (Await_accounts w) s = unhandled_rejection s"
| "abort (Await_sign w m a) s = onSignatureAborted s"

definition take_task :: "nat \<Rightarrow> page \<Rightarrow> page" where
  "take_task i s = s\<lparr>pending := remove_nth i (pending s)\<rparr>"

fun event_step :: "page \<Rightarrow> event \<Rightarrow> page option" where
  "event_step s Load = (if loaded s then None else Some (load_handler s))"
| "event_step s Click_switch_account = (if loaded s then Some (onConnect s) else None)"
| "event_step s (Accounts_changed q) = Some (accountsChanged q s)"
| "event_step s (Resolve i v) =
     (if i < length (pending s) then resume (pending s ! i) v (take_task i s) else None)"
| "event_step s (Reject i) =
     (if i < length (pending s) then Some (abort (pending s ! i) (take_task i s)) else None)"

fun run :: "page \<Rightarrow> event list \<Rightarrow> page option" where
  "run s [] = Some s"
| "run s (e # es) = (case event_step s e of None \<Rightarrow> None | Some s' \<Rightarrow> run s' es)"

inductive reachable :: "page \<Rightarrow> bool" where
  start: "reachable (initial_page d)"
| step: "reachable s \<Longrightarrow> event_step s e = Some s' \<Longrightarrow> reachable s'"

code_pred reachable .

subsection \<open>The page invariant\<close>

fun is_sign :: "task \<Rightarrow> bool" where
  "is_sign (Await_sign w m a) = True"
| "is_sign _ = False"

text \<open>
  What the loaded widget keeps true of its form: a disabled login button goes with an
  empty signature field; the button is enabled exactly when the thank-you text is shown;
  the text is one of the four the script writes; an enabled button shows a signature the
  wallet returned; and while a signature request is outstanding the prompt to choose an
  account is gone.
\<close>

definition form_inv :: "page \<Rightarrow> bool" where
  "form_inv s \<longleftrightarrow>
     (let d = document s in
        (btn_login_disabled d \<longrightarrow> field_signature d = '''')
      \<and> (btn_login_disabled d \<longleftrightarrow> waiting_for_signature_msg d \<noteq> msg_thanks)
      \<and> waiting_for_signature_msg d \<in> set [msg_choose, msg_waiting, msg_thanks, msg_refused]
      \<and> (\<not> btn_login_disabled d \<longrightarrow> field_signature d \<in> set (map (\<lambda>(m, a, g). g) (received s)))
      \<and> (list_ex is_sign (pending s) \<longrightarrow> waiting_for_signature_msg d \<noteq> msg_choose))"

text \<open>
  Before \<^verbatim>\<open>load\<close> nothing has happened; after it the dialog configuration is the one
  \<^verbatim>\<open>init\<close> built, the form invariant holds, and the provider held is one the widget
  subscribed to.
\<close>

definition page_inv :: "page \<Rightarrow> bool" where
  "page_inv s \<longleftrightarrow>
     (if loaded s
      then web3Modal s = Some default_modal \<and> form_inv s
           \<and> pred_option (\<lambda>p. pid p \<in> set (subscriptions s)) (provider s)
      else pending s = [] \<and> subscriptions s = [] \<and> provider s = None \<and> received s = [])"

subsection \<open>Settling: the backlog of suspended work\<close>

text \<open>
  Each suspension point is worth the number of settlements that can still follow it in
  its chain (\<^verbatim>\<open>close\<close>, \<^verbatim>\<open>clearCachedProvider\<close>, \<^verbatim>\<open>connect\<close>,
  \<^verbatim>\<open>getAccounts\<close>, \<^verbatim>\<open>personal.sign\<close>).  A settlement replaces a task by at most one
  task of smaller weight, so the backlog strictly falls.
\<close>

fun task_weight :: "task \<Rightarrow> nat" where
  "task_weight (Await_close p) = 5"
| "task_weight Await_clear = 4"
| "task_weight Await_connect = 3"
| "task_weight (Await_accounts w) = 2"
| "task_weight (Await_sign w m a) = 1"

definition backlog :: "page \<Rightarrow> nat" where
  "backlog s = sum_list (map task_weight (pending s))"

fun is_settle :: "event \<Rightarrow> bool" where
  "is_settle (Resolve i v) = True"
| "is_settle (Reject i) = True"
| "is_settle _ = False"

subsection \<open>Sample inputs\<close>

text \<open>
  A page whose server put the challenge \<^verbatim>\<open>"hello"\<close> in the form, a WalletConnect
  provider, the run of the intended flow on them, and loaded pages with a given queue of
  suspended continuations.  The witnesses below evaluate the model on these.
\<close>

definition demo_form :: form where
  "demo_form = \<lparr>username = '''', field_signature = '''', field_signature_request = ''hello'',
                 btn_login_disabled = False, waiting_for_signature_msg = ''''\<rparr>"

definition demo_provider :: wallet_provider where
  "demo_provider = \<lparr>pid = 1, has_close = True\<rparr>"

definition demo_signed_run :: "event list" where
  "demo_signed_run = [Load, Resolve 0 (JProvider demo_provider), Resolve 0 (JAccounts [''0xABC'']),
                      Resolve 0 (JString ''0xSIGNED'')]"

definition demo_page :: "task list \<Rightarrow> page" where
  "demo_page ts = (initial_page demo_form)\<lparr>web3Modal := Some default_modal, loaded := True,
                                            pending := ts\<rparr>"

lemmas demo_defs = demo_form_def demo_provider_def demo_signed_run_def demo_page_def initial_page_def

subsection \<open>Runs\<close>

lemma run_Cons_Some [simp]:
  "event_step s e = Some s' \<Longrightarrow> run s (e # es) = run s' es"
  by simp

lemma run_append:
  "run s (es @ fs) = (case run s es of None \<Rightarrow> None | Some s' \<Rightarrow> run s' fs)"
  by (induction es arbitrary: s) (auto split: option.splits)

lemma reachable_run:
  "run s es = Some s' \<Longrightarrow> reachable s \<Longrightarrow> reachable s'"
proof (induction es arbitrary: s)
  case Nil
  then show ?case by simp
next
  case (Cons e es)
  then obtain t where t: "event_step s e = Some t" and "run t es = Some s'"
    by (auto split: option.splits)
  with Cons show ?case by (blast intro: reachable.step)
qed

lemma take_task_simps [simp]:
  "document (take_task i s) = document s" "web3Modal (take_task i s) = web3Modal s"
  "provider (take_task i s) = provider s" "loaded (take_task i s) = loaded s"
  "subscriptions (take_task i s) = subscriptions s" "received (take_task i s) = received s"
  "calls (take_task i s) = calls s" "console (take_task i s) = console s"
  "selectedAccount (take_task i s) = selectedAccount s"
  "pending (take_task i s) = remove_nth i (pending s)"
  by (simp_all add: take_task_def)

subsection \<open>The invariant is kept\<close>

lemma page_inv_initial: "page_inv (initial_page d)"
  by (simp add: page_inv_def initial_page_def)

lemma list_ex_remove_nth: "list_ex P (remove_nth i xs) \<Longrightarrow> list_ex P xs"
  by (auto simp: list_ex_iff dest: in_set_remove_nth)

lemma page_inv_take_task: "page_inv s \<Longrightarrow> page_inv (take_task i s)"
  by (auto simp: page_inv_def form_inv_def Let_def dest: list_ex_remove_nth)

lemma page_inv_load: "\<not> loaded s \<Longrightarrow> page_inv s \<Longrightarrow> page_inv (load_handler s)"
  by (simp add: page_inv_def form_inv_def Let_def handler_defs default_modal_def)

lemma page_inv_onConnect: "loaded s \<Longrightarrow> page_inv s \<Longrightarrow> page_inv (onConnect s)"
  by (auto simp: page_inv_def form_inv_def Let_def handler_defs split: option.splits)

lemma page_inv_fetchAccountData:
  "loaded s \<Longrightarrow> page_inv s \<Longrightarrow> page_inv (fetchAccountData s)"
  by (auto simp: page_inv_def form_inv_def Let_def fetchAccountData_def split: option.splits)

lemma page_inv_accountsChanged: "page_inv s \<Longrightarrow> page_inv (accountsChanged q s)"
proof (cases "loaded s")
  case True
  have "\<And>t. loaded t \<and> page_inv t \<Longrightarrow> loaded (fetchAccountData t) \<and> page_inv (fetchAccountData t)"
    using page_inv_fetchAccountData by simp
  then show "page_inv s \<Longrightarrow> page_inv (accountsChanged q s)"
    using True funpow_preserve [of "\<lambda>t. loaded t \<and> page_inv t" fetchAccountData]
    by (simp add: accountsChanged_def)
next
  case False
  then show "page_inv s \<Longrightarrow> page_inv (accountsChanged q s)"
    by (simp add: page_inv_def accountsChanged_def)
qed

lemma page_inv_onConnect_closed: "loaded s \<Longrightarrow> page_inv s \<Longrightarrow> page_inv (onConnect_closed s)"
  by (auto simp: page_inv_def form_inv_def Let_def onConnect_closed_def unhandled_rejection_def split: option.splits)

lemma page_inv_open_dialog: "loaded s \<Longrightarrow> page_inv s \<Longrightarrow> page_inv (open_dialog (s\<lparr>provider := None\<rparr>))"
  by (auto simp: page_inv_def form_inv_def Let_def open_dialog_def split: option.splits)

lemma page_inv_connected: "loaded s \<Longrightarrow> page_inv s \<Longrightarrow> page_inv (onConnect_connected p s)"
  by (auto simp: page_inv_def form_inv_def Let_def onConnect_connected_def fetchAccountData_def)

lemma page_inv_fetch_resume: "loaded s \<Longrightarrow> page_inv s \<Longrightarrow> page_inv (fetchAccountData_resume w xs s)"
  by (auto simp: page_inv_def form_inv_def Let_def fetchAccountData_resume_def)

lemma page_inv_signed: "loaded s \<Longrightarrow> page_inv s \<Longrightarrow> page_inv (record_signing (m, a, g) (onSigned g s))"
  by (auto simp: page_inv_def form_inv_def Let_def record_signing_def onSigned_def)

lemma page_inv_aborted: "loaded s \<Longrightarrow> page_inv s \<Longrightarrow> page_inv (onSignatureAborted s)"
  by (auto simp: page_inv_def form_inv_def Let_def onSignatureAborted_def)

lemma page_inv_console [simp]: "page_inv (s\<lparr>console := c\<rparr>) = page_inv s"
  by (simp add: page_inv_def form_inv_def)

lemma page_inv_abort: "loaded s \<Longrightarrow> page_inv s \<Longrightarrow> page_inv (abort k s)"
  by (cases k) (simp_all add: onConnect_failed_def unhandled_rejection_def page_inv_aborted)

lemma page_inv_resume:
  "loaded s \<Longrightarrow> page_inv s \<Longrightarrow> resume k v s = Some s' \<Longrightarrow> page_inv s'"
  by (induction k v s rule: resume.induct)
     (auto simp: onConnect_cleared_def page_inv_onConnect_closed page_inv_open_dialog
        page_inv_connected page_inv_fetch_resume page_inv_signed)

lemma page_inv_step:
  assumes "event_step s e = Some s'" and "page_inv s"
  shows "page_inv s'"
proof (cases e)
  case Load
  with assms show ?thesis by (auto simp: page_inv_load split: if_splits)
next
  case Click_switch_account
  with assms show ?thesis by (auto simp: page_inv_onConnect split: if_splits)
next
  case (Accounts_changed q)
  with assms show ?thesis by (auto simp: page_inv_accountsChanged)
next
  case (Resolve i v)
  with assms have i: "i < length (pending s)" and r: "resume (pending s ! i) v (take_task i s) = Some s'"
    by (auto split: if_splits)
  from i assms(2) have "loaded (take_task i s)" by (auto simp: page_inv_def split: if_splits)
  with r page_inv_take_task [OF assms(2)] show ?thesis by (blast intro: page_inv_resume)
next
  case (Reject i)
  with assms have i: "i < length (pending s)" and r: "s' = abort (pending s ! i) (take_task i s)"
    by (auto split: if_splits)
  from i assms(2) have "loaded (take_task i s)" by (auto simp: page_inv_def split: if_splits)
  with r page_inv_take_task [OF assms(2)] show ?thesis by (blast intro: page_inv_abort)
qed

lemma reachable_page_inv: "reachable s \<Longrightarrow> page_inv s"
  by (induction rule: reachable.induct) (auto intro: page_inv_initial page_inv_step)

subsection \<open>The backlog falls\<close>

lemma pending_abort [simp]: "pending (abort k s) = pending s"
  by (cases k) (simp_all add: handler_defs)

lemma backlog_take_task:
  "i < length (pending s) \<Longrightarrow> backlog (take_task i s) + task_weight (pending s ! i) = backlog s"
  by (simp add: backlog_def sum_list_remove_nth)

lemma backlog_resume:
  "resume k v s = Some s' \<Longrightarrow> backlog s' < backlog s + task_weight k"
  by (induction k v s rule: resume.induct)
     (auto simp: backlog_def handler_defs Let_def record_signing_def split: option.splits)

lemma backlog_settle:
  assumes "is_settle e" and "event_step s e = Some s'"
  shows "backlog s' < backlog s"
proof (cases e)
  case (Resolve i v)
  with assms(2) have "i < length (pending s)"
    and "resume (pending s ! i) v (take_task i s) = Some s'" by (auto split: if_splits)
  then show ?thesis using backlog_resume backlog_take_task by fastforce
next
  case (Reject i)
  with assms(2) have "i < length (pending s)"
    and "s' = abort (pending s ! i) (take_task i s)" by (auto split: if_splits)
  moreover have "0 < task_weight (pending s ! i)" by (cases "pending s ! i") simp_all
  ultimately show ?thesis using backlog_take_task [of i s] by (simp add: backlog_def)
qed (use assms(1) in simp_all)

subsection \<open>Component properties of the event loop\<close>

text \<open>
  C1. Whenever the page has loaded, a disabled login button shows an empty signature
  field, the button is enabled exactly when the thank-you text is shown, and an enabled
  button shows a signature that the wallet returned for some challenge and account.
\<close>

theorem login_enabled_only_when_signed:
  assumes "reachable s" and "loaded s"
  shows "(btn_login_disabled (document s) \<longrightarrow> field_signature (document s) = '''')
       \<and> (\<not> btn_login_disabled (document s) \<longleftrightarrow> waiting_for_signature_msg (document s) = msg_thanks)
       \<and> (\<not> btn_login_disabled (document s) \<longrightarrow>
            (\<exists>m a. (m, a, field_signature (document s)) \<in> set (received s)))"
proof -
  from assms have "page_inv s" by (simp add: reachable_page_inv)
  with assms(2) show ?thesis
    by (auto simp: page_inv_def form_inv_def Let_def)
qed

text \<open>
  C3. A rejected signature request disables the login button, empties the signature
  field and shows the refusal text, whatever the state before; the account and provider
  are kept.
\<close>

theorem sign_rejection_disables_login:
  assumes "pending s ! i = Await_sign w m a" and "event_step s (Reject i) = Some s'"
  shows "btn_login_disabled (document s') \<and> field_signature (document s') = ''''
       \<and> waiting_for_signature_msg (document s') = msg_refused
       \<and> selectedAccount s' = selectedAccount s \<and> provider s' = provider s"
  using assms by (auto simp: onSignatureAborted_def split: if_splits)

text \<open>
  C11. A wallet that reports no account makes \<^verbatim>\<open>accounts[0]\<close> undefined: the widget
  stores no account, writes the text \<^verbatim>\<open>"undefined"\<close> into the username field and
  still requests a signature, for an undefined account.
\<close>

theorem empty_accounts_sign_for_undefined:
  assumes "pending s ! i = Await_accounts w" and "event_step s (Resolve i (JAccounts [])) = Some s'"
  shows "selectedAccount s' = None \<and> username (document s') = ''undefined''
       \<and> calls s' = calls s @ [Call_personal_sign (field_signature_request (document s)) None]
       \<and> pending s' = remove_nth i (pending s) @ [Await_sign w (field_signature_request (document s)) None]"
  using assms by (cases w) (auto simp: fetchAccountData_resume_def Let_def split: if_splits)

text \<open>
  C9. The event loop comes to rest: a run made only of promise settlements, with no
  new user or wallet event, has at most as many steps as the backlog it started from.
\<close>

theorem settling_terminates:
  "list_all is_settle es \<Longrightarrow> run s es = Some s' \<Longrightarrow> length es + backlog s' \<le> backlog s"
proof (induction es arbitrary: s)
  case Nil
  then show ?case by simp
next
  case (Cons e es)
  then obtain t where t: "event_step s e = Some t" and r: "run t es = Some s'"
    by (auto split: option.splits)
  with Cons.prems have "backlog t < backlog s" by (auto intro: backlog_settle)
  moreover from Cons.prems r have "length es + backlog s' \<le> backlog t"
    by (auto intro: Cons.IH)
  ultimately show ?case by simp
qed

text \<open>
  C10. Whatever is pending, the environment can always bring the page to rest: rejecting
  the first pending promise as many times as there are pending promises succeeds and
  leaves nothing pending.
\<close>

theorem pending_can_always_drain:
  "\<exists>s'. run s (replicate (length (pending s)) (Reject 0)) = Some s' \<and> pending s' = []"
proof (induction "pending s" arbitrary: s)
  case Nil
  then show ?case by simp
next
  case (Cons t ts)
  let ?s1 = "abort t (take_task 0 s)"
  have step: "event_step s (Reject 0) = Some ?s1" and p1: "pending ?s1 = ts"
    using Cons.hyps(2) [symmetric] by simp_all
  from Cons.hyps(1) [of ?s1] p1 obtain s' where
    "run ?s1 (replicate (length ts) (Reject 0)) = Some s'" and "pending s' = []" by auto
  with step Cons.hyps(2) [symmetric] show ?case by simp
qed

subsection \<open>Witnesses\<close>

lemmas eval_defs = demo_defs handler_defs Let_def take_task_def record_signing_def remove_nth_def
  default_modal_def

theorem login_enabled_only_when_signed_witness:
  "\<exists>s. reachable s \<and> loaded s \<and> \<not> btn_login_disabled (document s)
     \<and> field_signature (document s) = ''0xSIGNED''
     \<and> waiting_for_signature_msg (document s) = msg_thanks
     \<and> (\<exists>m a. (m, a, ''0xSIGNED'') \<in> set (received s))"
proof -
  obtain s where r: "run (initial_page demo_form) demo_signed_run = Some s"
    and l: "loaded s" and b: "\<not> btn_login_disabled (document s)"
    and f: "field_signature (document s) = ''0xSIGNED''"
    by (simp add: eval_defs)
  have reach: "reachable s" using reachable_run [OF r reachable.start] .
  with login_enabled_only_when_signed [OF reach l] l b f show ?thesis by auto
qed

theorem sign_rejection_disables_login_witness:
  "\<exists>s'. event_step (demo_page [Await_sign (Some demo_provider) ''hello'' (Some ''0xABC'')]) (Reject 0) = Some s'
     \<and> btn_login_disabled (document s') \<and> field_signature (document s') = ''''
     \<and> waiting_for_signature_msg (document s') = msg_refused"
proof -
  let ?s = "demo_page [Await_sign (Some demo_provider) ''hello'' (Some ''0xABC'')]"
  obtain s' where st: "event_step ?s (Reject 0) = Some s'" by (simp add: eval_defs)
  have "pending ?s ! 0 = Await_sign (Some demo_provider) ''hello'' (Some ''0xABC'')"
    by (simp add: eval_defs)
  from sign_rejection_disables_login [OF this st] st show ?thesis by blast
qed

theorem empty_accounts_sign_for_undefined_witness:
  "\<exists>s'. event_step (demo_page [Await_accounts (Some demo_provider)]) (Resolve 0 (JAccounts [])) = Some s'
     \<and> selectedAccount s' = None \<and> username (document s') = ''undefined''
     \<and> calls s' = [Call_personal_sign ''hello'' None]"
proof -
  let ?s = "demo_page [Await_accounts (Some demo_provider)]"
  obtain s' where st: "event_step ?s (Resolve 0 (JAccounts [])) = Some s'"
    by (simp add: eval_defs)
  have "pending ?s ! 0 = Await_accounts (Some demo_provider)" by (simp add: eval_defs)
  from empty_accounts_sign_for_undefined [OF this st] st show ?thesis by (simp add: eval_defs)
qed

theorem settling_terminates_witness:
  "\<exists>s'. list_all is_settle [Resolve 0 (JProvider demo_provider), Reject 0]
     \<and> run (demo_page [Await_connect]) [Resolve 0 (JProvider demo_provider), Reject 0] = Some s'
     \<and> 2 + backlog s' \<le> backlog (demo_page [Await_connect])"
proof -
  let ?es = "[Resolve 0 (JProvider demo_provider), Reject 0]"
  obtain s' where r: "run (demo_page [Await_connect]) ?es = Some s'" by (simp add: eval_defs)
  have a: "list_all is_settle ?es" by simp
  from settling_terminates [OF a r] a r show ?thesis by auto
qed

end
