(* ===== verification/UiSpec.thy ===== *)
theory UiSpec
  imports EventLoop
begin

text \<open>
  The contract of the widget as the specification states it (section 4, "state machine",
  and section 5): the user interface goes from uninitialised to awaiting an account
  choice, to an account selected and unsigned, to signed; a signature rejection leads to
  the refused state from any of these; a switch of account or an account change loops
  back.  Section 5 accepts that a signature request still in flight when the account
  changes may land later ("last writer wins on the signature field"), so a signature may
  arrive in any state after an account was selected.  The login button is enabled in the
  signed state only.

  The machine is labelled by the interface events of the specification, plus a skip
  event for internal steps.  The concrete page is mapped to the machine by the status
  text it shows, and each event of the loop to an interface event (\<open>ui_event_of\<close>):
  \<^verbatim>\<open>load\<close> initialises, the fulfilment of \<^verbatim>\<open>getAccounts\<close> is an account fetch,
  the fulfilment of \<^verbatim>\<open>personal.sign\<close> a signature, its rejection a refusal, and
  every other event (a click, an account-change notification, the settling of
  \<^verbatim>\<open>close\<close>, \<^verbatim>\<open>clearCachedProvider\<close> or \<^verbatim>\<open>connect\<close>, an unhandled rejection) is
  internal.  Every step of the event loop is shown to be the step of the machine its
  event maps to: a simulation with an event mapping.
\<close>

datatype ui =
    Uninitialized
  | AwaitingAccountChoice
  | AccountSelected_unsigned
  | AccountSelected_signed
  | SignatureRefused

fun account_phase :: "ui \<Rightarrow> bool" where
  "account_phase AccountSelected_unsigned = True"
| "account_phase AccountSelected_signed = True"
| "account_phase SignatureRefused = True"
| "account_phase _ = False"

datatype ui_event =
    UI_initialise
  | UI_account_fetched
  | UI_signed
  | UI_refused
  | UI_switch_account
  | UI_skip

inductive ui_step :: "ui \<Rightarrow> ui_event \<Rightarrow> ui \<Rightarrow> bool" where
  initialise: "ui_step Uninitialized UI_initialise AwaitingAccountChoice"
| account_fetched: "u \<noteq> Uninitialized \<Longrightarrow> ui_step u UI_account_fetched AccountSelected_unsigned"
| signed: "account_phase u \<Longrightarrow> ui_step u UI_signed AccountSelected_signed"
| refused: "account_phase u \<Longrightarrow> ui_step u UI_refused SignatureRefused"
| switch_account: "account_phase u \<Longrightarrow> ui_step u UI_switch_account AwaitingAccountChoice"
| skip: "ui_step u UI_skip u"

code_pred ui_step .

definition ui_of :: "page \<Rightarrow> ui" where
  "ui_of s =
     (if \<not> loaded s then Uninitialized
      else let m = waiting_for_signature_msg (document s) in
        if m = msg_choose then AwaitingAccountChoice
        else if m = msg_waiting then AccountSelected_unsigned
        else if m = msg_thanks then AccountSelected_signed
        else SignatureRefused)"

text \<open>
  The event mapping: which interface event a settlement or a user event is.
\<close>

fun fulfil_event :: "task \<Rightarrow> ui_event" where
  "fulfil_event (Await_accounts w) = UI_account_fetched"
| "fulfil_event (Await_sign w m a) = UI_signed"
| "fulfil_event _ = UI_skip"

fun ui_event_of :: "page \<Rightarrow> event \<Rightarrow> ui_event" where
  "ui_event_of s Load = UI_initialise"
| "ui_event_of s (Resolve i v) =
     (if i < length (pending s) then fulfil_event (pending s ! i) else UI_skip)"
| "ui_event_of s (Reject i) =
     (if i < length (pending s) \<and> is_sign (pending s ! i) then UI_refused else UI_skip)"
| "ui_event_of s _ = UI_skip"

subsection \<open>The abstraction of each continuation\<close>

inductive_simps ui_step_skip [simp]: "ui_step u UI_skip u'"

lemma ui_of_frame:
  "loaded t = loaded s \<Longrightarrow> document t = document s \<Longrightarrow> ui_of t = ui_of s"
  by (simp add: ui_of_def)

lemma ui_of_take_task [simp]: "ui_of (take_task i s) = ui_of s"
  by (simp add: ui_of_def)

lemma abort_frame:
  "\<not> is_sign k \<Longrightarrow> ui_of (abort k s) = ui_of s"
  by (cases k) (simp_all add: ui_of_def)

text \<open>
  In a loaded state that keeps the page invariant the status text is one of the four
  the script writes, and while a signature request is outstanding it is not the prompt
  to choose an account: so the state the signature lands in is one after an account was
  selected.
\<close>

lemma page_inv_account_phase:
  assumes inv: "page_inv s" and "i < length (pending s)" and "is_sign (pending s ! i)"
  shows "loaded s \<and> account_phase (ui_of s)"
proof -
  have "pending s \<noteq> []" using assms(2) by auto
  with inv have l: "loaded s" by (auto simp: page_inv_def split: if_splits)
  have "list_ex is_sign (pending s)" using assms(2,3) by (auto simp: list_ex_iff)
  with inv l show ?thesis by (auto simp: page_inv_def form_inv_def Let_def ui_of_def)
qed

lemma page_inv_pending_loaded:
  "page_inv s \<Longrightarrow> i < length (pending s) \<Longrightarrow> loaded s"
  by (auto simp: page_inv_def split: if_splits)

lemma ui_step_resume:
  assumes "page_inv s" and "i < length (pending s)"
    and "resume (pending s ! i) v (take_task i s) = Some s'"
  shows "ui_step (ui_of s) (fulfil_event (pending s ! i)) (ui_of s')"
proof (cases "pending s ! i")
  case (Await_accounts w)
  with assms(3) obtain xs where "s' = fetchAccountData_resume w xs (take_task i s)"
    by (auto elim: resume.elims)
  moreover have "loaded s" using assms(1,2) by (rule page_inv_pending_loaded)
  ultimately show ?thesis using Await_accounts
    by (auto simp: ui_of_def fetchAccountData_resume_def Let_def intro: ui_step.account_fetched)
next
  case (Await_sign w m a)
  with assms(3) obtain g where "s' = record_signing (m, a, g) (onSigned g (take_task i s))"
    by (auto elim: resume.elims)
  moreover have "loaded s \<and> account_phase (ui_of s)"
    using page_inv_account_phase [OF assms(1,2)] Await_sign by simp
  ultimately show ?thesis using Await_sign
    by (auto simp: ui_of_def onSigned_def record_signing_def intro: ui_step.signed)
qed (cases v; use assms(3) in \<open>auto simp: ui_of_def\<close>)+

lemma ui_step_abort:
  assumes "page_inv s" and "i < length (pending s)"
  shows "ui_step (ui_of s) (if is_sign (pending s ! i) then UI_refused else UI_skip)
           (ui_of (abort (pending s ! i) (take_task i s)))"
proof (cases "is_sign (pending s ! i)")
  case True
  then obtain w m a where k: "pending s ! i = Await_sign w m a" by (cases "pending s ! i") auto
  have "loaded s \<and> account_phase (ui_of s)"
    using page_inv_account_phase [OF assms] True by simp
  with k show ?thesis
    by (auto simp: ui_of_def onSignatureAborted_def intro: ui_step.refused)
next
  case False
  then show ?thesis by (simp add: abort_frame)
qed

text \<open>
  After \<^verbatim>\<open>load\<close>, no step writes the prompt to choose an account again: every handler
  either leaves the status text alone or writes the waiting, thank-you or refusal text.
\<close>

lemma resume_status:
  assumes "resume k v s = Some s'"
  shows "loaded s' = loaded s
       \<and> waiting_for_signature_msg (document s') \<in>
           {waiting_for_signature_msg (document s), msg_waiting, msg_thanks}"
  using assms
  by (induction k v s rule: resume.induct)
     (auto simp: fetchAccountData_resume_def Let_def onSigned_def record_signing_def)

lemma abort_status:
  "loaded (abort k s) = loaded s
   \<and> waiting_for_signature_msg (document (abort k s)) \<in>
       {waiting_for_signature_msg (document s), msg_refused}"
  by (cases k) (simp_all add: onSignatureAborted_def)

lemma step_status:
  assumes "event_step s e = Some s'" and "loaded s"
  shows "loaded s'
       \<and> waiting_for_signature_msg (document s') \<in>
           {waiting_for_signature_msg (document s), msg_waiting, msg_thanks, msg_refused}"
proof (cases e)
  case (Resolve i v)
  with assms have "resume (pending s ! i) v (take_task i s) = Some s'" by (simp split: if_splits)
  with assms(2) show ?thesis by (auto dest: resume_status)
next
  case (Reject i)
  with assms have "s' = abort (pending s ! i) (take_task i s)" by (simp split: if_splits)
  with assms(2) show ?thesis using abort_status [of "pending s ! i" "take_task i s"] by auto
qed (use assms in \<open>auto split: if_splits\<close>)

subsection \<open>The widget refines the specified user interface\<close>

lemma ui_step_of_step:
  assumes "page_inv s" and "event_step s e = Some s'"
  shows "ui_step (ui_of s) (ui_event_of s e) (ui_of s')"
proof (cases e)
  case Load
  with assms(2) have "\<not> loaded s" and "s' = load_handler s" by (auto split: if_splits)
  with Load show ?thesis
    by (simp add: ui_of_def load_handler_def init_def ui_step.initialise)
next
  case Click_switch_account
  with assms(2) show ?thesis by (auto simp: ui_of_def split: if_splits)
next
  case (Accounts_changed q)
  with assms(2) show ?thesis by (auto simp: ui_of_def)
next
  case (Resolve i v)
  with assms(2) have i: "i < length (pending s)"
    and "resume (pending s ! i) v (take_task i s) = Some s'" by (auto split: if_splits)
  with assms(1) have "ui_step (ui_of s) (fulfil_event (pending s ! i)) (ui_of s')"
    by (rule ui_step_resume)
  with Resolve i show ?thesis by simp
next
  case (Reject i)
  with assms(2) have i: "i < length (pending s)"
    and "s' = abort (pending s ! i) (take_task i s)" by (auto split: if_splits)
  with assms(1) ui_step_abort [OF assms(1) i] Reject show ?thesis by simp
qed

text \<open>
  C6. Every step of the event loop from a reachable page is the step of the specified
  interface machine that its event maps to: loading initialises, fetched accounts lead
  to the unsigned state, a returned signature to the signed state, a rejected one to the
  refused state, and every internal step leaves the interface state as it is.
\<close>

theorem widget_refines_ui:
  assumes "reachable s" and "event_step s e = Some s'"
  shows "ui_step (ui_of s) (ui_event_of s e) (ui_of s')"
  using ui_step_of_step [OF reachable_page_inv [OF assms(1)] assms(2)] .

text \<open>
  C14. The loop back that the specification's state machine describes ("loops back to
  AwaitingAccountChoice on switch-account or account-change notification") never happens:
  once an account was selected, no step shows the prompt to choose an account again.
  While the wallet dialog of a switch is open, the page keeps showing the previous
  outcome, an enabled login button included.
\<close>

theorem choice_prompt_never_returns:
  assumes "account_phase (ui_of s)" and "event_step s e = Some s'"
  shows "account_phase (ui_of s')"
proof -
  from assms(1) have l: "loaded s" and
    m: "waiting_for_signature_msg (document s) \<in> set [msg_waiting, msg_thanks, msg_refused] \<or>
        waiting_for_signature_msg (document s) \<notin> set [msg_choose, msg_waiting, msg_thanks]"
    by (auto simp: ui_of_def Let_def split: if_splits)
  from step_status [OF assms(2) l] have "loaded s'"
    and "waiting_for_signature_msg (document s') \<in>
           {waiting_for_signature_msg (document s), msg_waiting, msg_thanks, msg_refused}" by auto
  with m show ?thesis by (auto simp: ui_of_def Let_def)
qed

subsection \<open>Witnesses\<close>

theorem widget_refines_ui_witness:
  "\<exists>s'. reachable (initial_page demo_form) \<and> event_step (initial_page demo_form) Load = Some s'
     \<and> ui_of (initial_page demo_form) = Uninitialized \<and> ui_of s' = AwaitingAccountChoice
     \<and> ui_step (ui_of (initial_page demo_form)) (ui_event_of (initial_page demo_form) Load) (ui_of s')"
proof -
  have r: "reachable (initial_page demo_form)" by (rule reachable.start)
  obtain s' where st: "event_step (initial_page demo_form) Load = Some s'"
    and u: "ui_of (initial_page demo_form) = Uninitialized" and u': "ui_of s' = AwaitingAccountChoice"
    by (simp add: eval_defs ui_of_def)
  from widget_refines_ui [OF r st] r st u u' show ?thesis by auto
qed

theorem choice_prompt_never_returns_witness:
  "\<exists>s s'. reachable s \<and> account_phase (ui_of s)
     \<and> event_step s Click_switch_account = Some s' \<and> account_phase (ui_of s')
     \<and> \<not> btn_login_disabled (document s')"
proof -
  obtain s where r: "run (initial_page demo_form) demo_signed_run = Some s"
    and ph: "account_phase (ui_of s)" and b: "\<not> btn_login_disabled (document s)"
    and l: "loaded s"
    by (simp add: eval_defs ui_of_def)
  have reach: "reachable s" using reachable_run [OF r reachable.start] .
  have st: "event_step s Click_switch_account = Some (onConnect s)" using l by simp
  have "account_phase (ui_of (onConnect s))" by (rule choice_prompt_never_returns [OF ph st])
  with reach ph st b show ?thesis by (intro exI [of _ s] exI [of _ "onConnect s"]) simp
qed

end
