(* ===== verification/Traces.thy ===== *)
theory Traces
  imports UiSpec
begin

text \<open>
  Properties of whole executions, read off the queue of suspended continuations and the
  trace of calls the widget makes into its collaborators: every suspended continuation
  refers to a provider the widget subscribed to; the wallet is only ever asked to sign
  the challenge the server put into the page; every registered handler and every
  signature prompt is matched by its own earlier library call; the username field shows
  the selected account; and the wallet dialog is never opened while a provider that can
  be closed is still held.
\<close>

subsection \<open>Predicates on tasks and calls\<close>

fun task_provider_ok :: "nat list \<Rightarrow> task \<Rightarrow> bool" where
  "task_provider_ok subs (Await_close p) = (pid p \<in> set subs)"
| "task_provider_ok subs (Await_accounts w) = pred_option (\<lambda>p. pid p \<in> set subs) w"
| "task_provider_ok subs (Await_sign w m a) = pred_option (\<lambda>p. pid p \<in> set subs) w"
| "task_provider_ok subs Await_clear = True"
| "task_provider_ok subs Await_connect = True"

fun sign_over :: "string \<Rightarrow> task \<Rightarrow> bool" where
  "sign_over c (Await_sign w m a) = (m = c)"
| "sign_over c _ = True"

fun call_over :: "string \<Rightarrow> ext_call \<Rightarrow> bool" where
  "call_over c (Call_personal_sign m a) = (m = c)"
| "call_over c _ = True"

fun is_accounts_call :: "ext_call \<Rightarrow> bool" where
  "is_accounts_call (Call_getAccounts w) = True"
| "is_accounts_call _ = False"

fun is_sign_call :: "ext_call \<Rightarrow> bool" where
  "is_sign_call (Call_personal_sign m a) = True"
| "is_sign_call _ = False"

fun is_accounts_task :: "task \<Rightarrow> bool" where
  "is_accounts_task (Await_accounts w) = True"
| "is_accounts_task _ = False"

text \<open>Every suspended continuation refers to a provider the widget subscribed to.\<close>

definition queue_wf :: "page \<Rightarrow> bool" where
  "queue_wf s \<longleftrightarrow> list_all (task_provider_ok (subscriptions s)) (pending s)"

text \<open>Every signature requested, outstanding or returned is over the page's challenge.\<close>

definition challenge_only :: "page \<Rightarrow> bool" where
  "challenge_only s \<longleftrightarrow>
     list_all (call_over (field_signature_request (document s))) (calls s)
   \<and> list_all (sign_over (field_signature_request (document s))) (pending s)
   \<and> list_all (\<lambda>(m, a, g). m = field_signature_request (document s)) (received s)"

text \<open>
  Registered handlers and outstanding dialogs are paid for by dialogs opened; signature
  prompts and outstanding account queries by account queries made.
\<close>

definition call_budget :: "page \<Rightarrow> bool" where
  "call_budget s \<longleftrightarrow>
     length (subscriptions s) + length (filter ((=) Await_connect) (pending s))
       \<le> length (filter ((=) Call_connect) (calls s))
   \<and> length (filter is_sign_call (calls s)) + length (filter is_accounts_task (pending s))
       \<le> length (filter is_accounts_call (calls s))"

text \<open>A selected account is the one the username field shows.\<close>

definition shows_selected :: "page \<Rightarrow> bool" where
  "shows_selected s \<longleftrightarrow> pred_option (\<lambda>a. username (document s) = a) (selectedAccount s)"

definition trace_inv :: "page \<Rightarrow> bool" where
  "trace_inv s \<longleftrightarrow> queue_wf s \<and> challenge_only s \<and> call_budget s \<and> shows_selected s"

lemmas trace_inv_defs = trace_inv_def queue_wf_def challenge_only_def call_budget_def
  shows_selected_def

subsection \<open>The trace invariant is kept\<close>

lemma task_provider_ok_mono:
  "task_provider_ok subs t \<Longrightarrow> task_provider_ok (subs @ ys) t"
  by (cases t) (auto elim!: option.pred_mono_strong)

lemma queue_provider_ok_mono [simp]:
  "list_all (task_provider_ok subs) ts \<Longrightarrow> list_all (task_provider_ok (subs @ ys)) ts"
  by (auto simp: list_all_iff intro: task_provider_ok_mono)

lemma js_string_shows [simp]: "pred_option ((=) (js_string acct)) acct"
  by (cases acct) simp_all

lemma trace_inv_initial: "trace_inv (initial_page d)"
  by (simp add: trace_inv_defs initial_page_def)

lemma trace_inv_load: "\<not> loaded s \<Longrightarrow> page_inv s \<Longrightarrow> trace_inv s \<Longrightarrow> trace_inv (load_handler s)"
  by (simp add: page_inv_def trace_inv_defs handler_defs Let_def)

lemma trace_inv_onConnect:
  "page_inv s \<Longrightarrow> loaded s \<Longrightarrow> trace_inv s \<Longrightarrow> trace_inv (onConnect s)"
  by (auto simp: page_inv_def trace_inv_defs handler_defs Let_def split: option.splits)

lemma trace_inv_fetchAccountData:
  "pred_option (\<lambda>p. pid p \<in> set (subscriptions s)) (provider s) \<Longrightarrow> trace_inv s
   \<Longrightarrow> trace_inv (fetchAccountData s)"
  by (auto simp: trace_inv_defs fetchAccountData_def)

lemma trace_inv_accountsChanged:
  assumes "page_inv s" and "trace_inv s"
  shows "trace_inv (accountsChanged q s)"
proof (cases "loaded s")
  case True
  let ?P = "\<lambda>t. trace_inv t \<and> pred_option (\<lambda>p. pid p \<in> set (subscriptions t)) (provider t)"
  have "\<And>t. ?P t \<Longrightarrow> ?P (fetchAccountData t)" using trace_inv_fetchAccountData by simp
  moreover have "?P s" using assms True by (simp add: page_inv_def)
  ultimately show ?thesis
    using funpow_preserve [of ?P fetchAccountData] by (simp add: accountsChanged_def)
next
  case False
  with assms(1,2) show ?thesis by (simp add: page_inv_def accountsChanged_def)
qed

text \<open>
  Taking the \<open>i\<close>-th task out of the queue keeps the invariant and frees the budget the
  task held.
\<close>

lemma trace_inv_take_task:
  assumes "trace_inv s" and "i < length (pending s)"
  shows "trace_inv (take_task i s)"
    and "task_provider_ok (subscriptions s) (pending s ! i)"
    and "sign_over (field_signature_request (document s)) (pending s ! i)"
    and "length (subscriptions s) + length (filter ((=) Await_connect) (pending (take_task i s)))
         + (if pending s ! i = Await_connect then 1 else 0)
       \<le> length (filter ((=) Call_connect) (calls s))"
    and "length (filter is_sign_call (calls s)) + length (filter is_accounts_task (pending (take_task i s)))
         + (if is_accounts_task (pending s ! i) then 1 else 0)
       \<le> length (filter is_accounts_call (calls s))"
proof -
  have l1: "length (filter ((=) Await_connect) (remove_nth i (pending s)))
      + (if pending s ! i = Await_connect then 1 else 0) = length (filter ((=) Await_connect) (pending s))"
    using length_filter_remove_nth [OF assms(2), of "(=) Await_connect"] by (simp add: eq_commute)
  have l2: "length (filter is_accounts_task (remove_nth i (pending s)))
      + (if is_accounts_task (pending s ! i) then 1 else 0) = length (filter is_accounts_task (pending s))"
    using length_filter_remove_nth [OF assms(2)] .
  from assms have "pending s ! i \<in> set (pending s)" by simp
  with assms(1) show "task_provider_ok (subscriptions s) (pending s ! i)"
    and "sign_over (field_signature_request (document s)) (pending s ! i)"
    by (auto simp: trace_inv_defs list_all_iff)
  from assms(1) l1 l2 show "trace_inv (take_task i s)"
    by (auto simp: trace_inv_defs)
  from assms(1) l1 show "length (subscriptions s) + length (filter ((=) Await_connect) (pending (take_task i s)))
         + (if pending s ! i = Await_connect then 1 else 0)
       \<le> length (filter ((=) Call_connect) (calls s))"
    by (simp add: trace_inv_defs)
  from assms(1) l2 show "length (filter is_sign_call (calls s)) + length (filter is_accounts_task (pending (take_task i s)))
         + (if is_accounts_task (pending s ! i) then 1 else 0)
       \<le> length (filter is_accounts_call (calls s))"
    by (simp add: trace_inv_defs)
qed

lemma trace_inv_resume:
  assumes "trace_inv s" and "i < length (pending s)"
    and "resume (pending s ! i) v (take_task i s) = Some s'"
  shows "trace_inv s'"
proof -
  note t = trace_inv_take_task [OF assms(1,2)]
  show ?thesis
  proof (cases "pending s ! i")
    case (Await_close p)
    with assms(3) t(1) show ?thesis
      by (auto simp: trace_inv_defs onConnect_closed_def unhandled_rejection_def split: option.splits)
  next
    case Await_clear
    with assms(3) t(1) show ?thesis
      by (auto simp: trace_inv_defs onConnect_cleared_def open_dialog_def Let_def split: option.splits)
  next
    case Await_connect
    with assms(3) obtain p where "s' = onConnect_connected p (take_task i s)"
      by (auto elim: resume.elims)
    with Await_connect t(1,4) show ?thesis
      by (simp add: trace_inv_defs onConnect_connected_def fetchAccountData_def)
  next
    case (Await_accounts w)
    with assms(3) obtain p xs where w: "w = Some p"
      and s': "s' = fetchAccountData_resume (Some p) xs (take_task i s)"
      by (auto elim: resume.elims)
    with Await_accounts t(1,2,5) show ?thesis
      by (simp add: trace_inv_defs fetchAccountData_resume_def Let_def)
  next
    case (Await_sign w m a)
    with assms(3) obtain g where "s' = record_signing (m, a, g) (onSigned g (take_task i s))"
      by (auto elim: resume.elims)
    with Await_sign t(1,3) show ?thesis
      by (simp add: trace_inv_defs record_signing_def onSigned_def)
  qed
qed

lemma trace_inv_abort:
  assumes "trace_inv s" and "i < length (pending s)"
  shows "trace_inv (abort (pending s ! i) (take_task i s))"
  using trace_inv_take_task(1) [OF assms]
  by (cases "pending s ! i") (simp_all add: trace_inv_defs handler_defs)

lemma trace_inv_step:
  assumes "event_step s e = Some s'" and "page_inv s" and "trace_inv s"
  shows "trace_inv s'"
proof (cases e)
  case Load
  with assms show ?thesis by (auto intro: trace_inv_load split: if_splits)
next
  case Click_switch_account
  with assms show ?thesis by (auto intro: trace_inv_onConnect split: if_splits)
next
  case (Accounts_changed q)
  with assms show ?thesis by (auto intro: trace_inv_accountsChanged)
next
  case (Resolve i v)
  with assms show ?thesis by (auto intro: trace_inv_resume split: if_splits)
next
  case (Reject i)
  with assms show ?thesis by (auto intro: trace_inv_abort split: if_splits)
qed

lemma reachable_trace_inv: "reachable s \<Longrightarrow> trace_inv s"
proof (induction rule: reachable.induct)
  case (start d)
  show ?case by (rule trace_inv_initial)
next
  case (step s e s')
  then show ?case by (blast intro: trace_inv_step reachable_page_inv)
qed

subsection \<open>Calls made by one step\<close>

lemma calls_accountsChanged:
  "calls (accountsChanged q s) =
     calls s @ replicate (count_list (subscriptions s) q) (Call_getAccounts (provider s))"
proof -
  have "\<And>n. calls ((fetchAccountData ^^ n) s) = calls s @ replicate n (Call_getAccounts (provider s))
          \<and> provider ((fetchAccountData ^^ n) s) = provider s"
  proof -
    fix n show "calls ((fetchAccountData ^^ n) s) = calls s @ replicate n (Call_getAccounts (provider s))
          \<and> provider ((fetchAccountData ^^ n) s) = provider s"
      by (induction n) (simp_all add: fetchAccountData_def replicate_append_same)
  qed
  then show ?thesis by (simp add: accountsChanged_def)
qed

lemma onConnect_dialog:
  "Call_connect \<in> set (drop (length (calls s)) (calls (onConnect s)))
   \<Longrightarrow> pred_option (\<lambda>p. \<not> has_close p) (provider (onConnect s))"
  by (auto simp: onConnect_def open_dialog_def Let_def split: option.splits if_splits)

lemma resume_dialog:
  "resume k v s = Some s' \<Longrightarrow> Call_connect \<in> set (drop (length (calls s)) (calls s'))
   \<Longrightarrow> pred_option (\<lambda>p. \<not> has_close p) (provider s')"
  by (induction k v s rule: resume.induct)
     (auto simp: handler_defs Let_def record_signing_def split: option.splits)

lemma abort_calls [simp]: "calls (abort k s) = calls s"
  by (cases k) (simp_all add: handler_defs)

lemma resume_keeps_challenge:
  "resume k v s = Some s' \<Longrightarrow>
   field_signature_request (document s') = field_signature_request (document s)"
  by (induction k v s rule: resume.induct)
     (auto simp: handler_defs Let_def record_signing_def split: option.splits)

lemma step_keeps_challenge:
  assumes "event_step s e = Some s'"
  shows "field_signature_request (document s') = field_signature_request (document s)"
proof (cases e)
  case (Resolve i v)
  with assms show ?thesis by (auto dest: resume_keeps_challenge split: if_splits)
next
  case (Reject i)
  with assms show ?thesis
    by (cases "pending s ! i") (auto simp: handler_defs split: if_splits)
qed (use assms in \<open>auto simp: handler_defs Let_def calls_accountsChanged split: if_splits option.splits\<close>)

lemma run_keeps_challenge:
  "run s es = Some s' \<Longrightarrow>
   field_signature_request (document s') = field_signature_request (document s)"
proof (induction es arbitrary: s)
  case (Cons e es)
  then obtain t where "event_step s e = Some t" and "run t es = Some s'"
    by (auto split: option.splits)
  with Cons.IH show ?case by (simp add: step_keeps_challenge)
qed simp

subsection \<open>Properties of executions\<close>

text \<open>
  C15. Well-formedness of the queue: every suspended continuation that holds a provider
  (a \<^verbatim>\<open>close\<close> in flight, a client awaiting accounts or a signature) holds one the
  widget subscribed to.
\<close>

theorem pending_tasks_use_subscribed_providers:
  "reachable s \<Longrightarrow> list_all (task_provider_ok (subscriptions s)) (pending s)"
  by (drule reachable_trace_inv) (simp add: trace_inv_defs)

text \<open>
  C16. The wallet is only ever asked to sign the challenge the server put into the page:
  the challenge field is never written, and every signature request made and every
  signature received is over it.
\<close>

theorem only_server_challenge_signed:
  assumes "run (initial_page d) es = Some s"
  shows "field_signature_request (document s) = field_signature_request d
       \<and> list_all (call_over (field_signature_request d)) (calls s)
       \<and> list_all (\<lambda>(m, a, g). m = field_signature_request d) (received s)"
proof -
  have c: "field_signature_request (document s) = field_signature_request d"
    using run_keeps_challenge [OF assms] by (simp add: initial_page_def)
  have "reachable s" using reachable_run [OF assms reachable.start] .
  then have "trace_inv s" by (rule reachable_trace_inv)
  with c show ?thesis by (simp add: trace_inv_defs)
qed

text \<open>
  C17. The wallet dialog is never opened while the widget holds a provider that can be
  closed: every step that calls \<^verbatim>\<open>web3Modal.connect()\<close> ends with no provider or one
  without \<^verbatim>\<open>close\<close>.
\<close>

theorem dialog_never_over_closable_provider:
  assumes "event_step s e = Some s'" and "Call_connect \<in> set (drop (length (calls s)) (calls s'))"
  shows "pred_option (\<lambda>p. \<not> has_close p) (provider s')"
proof (cases e)
  case Load
  with assms have "s' = load_handler s" by (simp split: if_splits)
  with assms(2) onConnect_dialog [of "init s"] show ?thesis
    by (simp add: load_handler_def init_def)
next
  case Click_switch_account
  with assms show ?thesis by (auto intro: onConnect_dialog split: if_splits)
next
  case (Accounts_changed q)
  with assms show ?thesis by (auto simp: calls_accountsChanged split: if_splits)
next
  case (Resolve i v)
  with assms show ?thesis by (auto intro: resume_dialog split: if_splits)
next
  case (Reject i)
  with assms show ?thesis by (auto simp: take_task_def split: if_splits)
qed

text \<open>
  C18. Bounds on what the widget registers and requests: no more \<^verbatim>\<open>accountsChanged\<close>
  handlers than wallet dialogs opened, and no more signature prompts than account
  queries made.
\<close>

theorem handlers_and_prompts_bounded:
  "reachable s \<Longrightarrow>
     length (subscriptions s) \<le> length (filter ((=) Call_connect) (calls s))
   \<and> length (filter is_sign_call (calls s)) \<le> length (filter is_accounts_call (calls s))"
  by (drule reachable_trace_inv) (auto simp: trace_inv_defs)

text \<open>
  C19. A rejected promise other than the signature request changes nothing but the queue
  and the console: a dismissed dialog is logged, every other rejection (of
  \<^verbatim>\<open>close\<close>, \<^verbatim>\<open>clearCachedProvider\<close>, \<^verbatim>\<open>getAccounts\<close>) is reported as unhandled.
\<close>

theorem non_sign_rejection_only_logs:
  assumes "event_step s (Reject i) = Some s'" and "\<not> is_sign (pending s ! i)"
  shows "s' = s\<lparr>pending := remove_nth i (pending s),
                console := console s @ [if pending s ! i = Await_connect
                                        then Log_no_wallet_connection else Log_unhandled_rejection]\<rparr>"
  using assms
  by (cases "pending s ! i") (auto simp: handler_defs take_task_def split: if_splits)

text \<open>
  C20. The username field shows the selected account: whenever \<^verbatim>\<open>selectedAccount\<close>
  holds an address, the form holds the same address.
\<close>

theorem username_shows_selected_account:
  "reachable s \<Longrightarrow> selectedAccount s = Some a \<Longrightarrow> username (document s) = a"
  by (drule reachable_trace_inv) (simp add: trace_inv_defs)

subsection \<open>Witnesses\<close>

lemma demo_signed_reachable:
  "\<exists>s. run (initial_page demo_form) demo_signed_run = Some s \<and> reachable s
     \<and> selectedAccount s = Some ''0xABC''"
proof -
  obtain s where r: "run (initial_page demo_form) demo_signed_run = Some s"
    and a: "selectedAccount s = Some ''0xABC''" by (simp add: eval_defs)
  with reachable_run [OF r reachable.start] show ?thesis by blast
qed

theorem pending_tasks_use_subscribed_providers_witness:
  "\<exists>s. reachable s \<and> pending s = [Await_connect]
     \<and> list_all (task_provider_ok (subscriptions s)) (pending s)"
proof -
  obtain s where st: "event_step (initial_page demo_form) Load = Some s"
    and p: "pending s = [Await_connect]" by (simp add: eval_defs)
  have r: "reachable s" using reachable.step [OF reachable.start st] .
  with pending_tasks_use_subscribed_providers [OF r] p show ?thesis by blast
qed

theorem only_server_challenge_signed_witness:
  "\<exists>s. run (initial_page demo_form) demo_signed_run = Some s
     \<and> calls s = [Call_connect, Call_getAccounts (Some demo_provider),
                  Call_personal_sign ''hello'' (Some ''0xABC'')]
     \<and> list_all (call_over ''hello'') (calls s)"
proof -
  obtain s where r: "run (initial_page demo_form) demo_signed_run = Some s"
    and c: "calls s = [Call_connect, Call_getAccounts (Some demo_provider),
                       Call_personal_sign ''hello'' (Some ''0xABC'')]"
    by (simp add: eval_defs)
  from only_server_challenge_signed [OF r] r c show ?thesis by (simp add: eval_defs)
qed

theorem dialog_never_over_closable_provider_witness:
  "\<exists>s'. event_step (demo_page []) Click_switch_account = Some s'
     \<and> Call_connect \<in> set (drop (length (calls (demo_page []))) (calls s'))
     \<and> pred_option (\<lambda>p. \<not> has_close p) (provider s')"
proof -
  obtain s' where st: "event_step (demo_page []) Click_switch_account = Some s'"
    and c: "Call_connect \<in> set (drop (length (calls (demo_page []))) (calls s'))"
    by (simp add: eval_defs)
  from dialog_never_over_closable_provider [OF st c] st c show ?thesis by blast
qed

theorem handlers_and_prompts_bounded_witness:
  "\<exists>s. reachable s \<and> length (subscriptions s) = 1
     \<and> length (subscriptions s) \<le> length (filter ((=) Call_connect) (calls s))
     \<and> length (filter is_sign_call (calls s)) \<le> length (filter is_accounts_call (calls s))"
proof -
  obtain s where r: "run (initial_page demo_form) demo_signed_run = Some s"
    and l: "length (subscriptions s) = 1" by (simp add: eval_defs)
  have reach: "reachable s" using reachable_run [OF r reachable.start] .
  from handlers_and_prompts_bounded [OF reach] reach l show ?thesis by blast
qed

theorem non_sign_rejection_only_logs_witness:
  "\<exists>s'. event_step (demo_page [Await_accounts (Some demo_provider)]) (Reject 0) = Some s'
     \<and> s' = (demo_page [])\<lparr>console := [Log_unhandled_rejection]\<rparr>"
proof -
  let ?s = "demo_page [Await_accounts (Some demo_provider)]"
  obtain s' where st: "event_step ?s (Reject 0) = Some s'" by (simp add: eval_defs)
  have n: "\<not> is_sign (pending ?s ! 0)" by (simp add: eval_defs)
  from non_sign_rejection_only_logs [OF st n] st show ?thesis by (simp add: eval_defs)
qed

theorem username_shows_selected_account_witness:
  "\<exists>s. reachable s \<and> selectedAccount s = Some ''0xABC'' \<and> username (document s) = ''0xABC''"
proof -
  obtain s where "run (initial_page demo_form) demo_signed_run = Some s" and r: "reachable s"
    and a: "selectedAccount s = Some ''0xABC''" using demo_signed_reachable by blast
  from username_shows_selected_account [OF r a] r a show ?thesis by blast
qed


end
