(* ===== verification/TokenWidget.thy ===== *)
theory TokenWidget
  imports Traces
begin

text \<open>
  The repair that section 9 of the specification proposes for the signature race: an
  explicit request-generation token that invalidates stale signature callbacks.  The
  repository has no code for it, so this variant is modelled from the specification.
  Only one segment changes: when \<^verbatim>\<open>getAccounts\<close> has answered, a new generation
  starts, and the signature requests of earlier generations are invalidated before the
  new one is issued.  An invalidated callback returns at once when its promise settles,
  a step that changes nothing; the model drops the invalidated continuations from the
  queue when they are invalidated, so those empty settlements are not events.  All
  other handlers are those of \<open>Widget\<close>.

  Shown here: the variant keeps the data-model invariant of section 3 of the
  specification, which the original violates (C5): an enabled login button always shows
  a signature over the page's challenge made for the selected account; and it refines
  the same interface machine under the same event mapping.
\<close>

subsection \<open>The variant\<close>

definition invalidate_signings :: "page \<Rightarrow> page" where
  "invalidate_signings s = s\<lparr>pending := filter (\<lambda>t. \<not> is_sign t) (pending s)\<rparr>"

definition fetchAccountData_resume_token ::
  "wallet_provider option \<Rightarrow> string list \<Rightarrow> page \<Rightarrow> page" where
  "fetchAccountData_resume_token w accounts s =
     fetchAccountData_resume w accounts (invalidate_signings s)"

fun resume_token :: "task \<Rightarrow> jsval \<Rightarrow> page \<Rightarrow> page option" where
  "resume_token (Await_accounts (Some w)) (JAccounts xs) s =
     Some (fetchAccountData_resume_token (Some w) xs s)"
| "resume_token k v s = resume k v s"

fun event_step_token :: "page \<Rightarrow> event \<Rightarrow> page option" where
  "event_step_token s (Resolve i v) =
     (if i < length (pending s) then resume_token (pending s ! i) v (take_task i s) else None)"
| "event_step_token s e = event_step s e"

fun run_token :: "page \<Rightarrow> event list \<Rightarrow> page option" where
  "run_token s [] = Some s"
| "run_token s (e # es) = (case event_step_token s e of None \<Rightarrow> None | Some s' \<Rightarrow> run_token s' es)"

inductive reachable_token :: "page \<Rightarrow> bool" where
  start: "reachable_token (initial_page d)"
| step: "reachable_token s \<Longrightarrow> event_step_token s e = Some s' \<Longrightarrow> reachable_token s'"

code_pred reachable_token .

subsection \<open>The invariant of the variant\<close>

fun sign_for :: "string option \<Rightarrow> task \<Rightarrow> bool" where
  "sign_for acct (Await_sign w m a) = (a = acct)"
| "sign_for acct _ = True"

text \<open>
  Every outstanding signature request is for the selected account and over the
  challenge; after load, an enabled button shows a signature the wallet returned for
  such a request.
\<close>

definition token_inv :: "page \<Rightarrow> bool" where
  "token_inv s \<longleftrightarrow>
     list_all (sign_for (selectedAccount s)) (pending s)
   \<and> list_all (sign_over (field_signature_request (document s))) (pending s)
   \<and> (loaded s \<longrightarrow> \<not> btn_login_disabled (document s) \<longrightarrow>
        (field_signature_request (document s), selectedAccount s, field_signature (document s))
          \<in> set (received s))"

subsection \<open>Lemmas\<close>

lemma run_token_Cons_Some [simp]:
  "event_step_token s e = Some s' \<Longrightarrow> run_token s (e # es) = run_token s' es"
  by simp

lemma reachable_token_run:
  "run_token s es = Some s' \<Longrightarrow> reachable_token s \<Longrightarrow> reachable_token s'"
proof (induction es arbitrary: s)
  case (Cons e es)
  then obtain t where "event_step_token s e = Some t" and "run_token t es = Some s'"
    by (auto split: option.splits)
  with Cons show ?case by (blast intro: reachable_token.step)
qed simp

lemma not_sign_ok [simp]:
  "\<not> is_sign t \<Longrightarrow> sign_for a t" "\<not> is_sign t \<Longrightarrow> sign_over c t"
  by (cases t; simp)+

lemma list_all_filter_not_sign [simp]:
  "list_all (sign_for a) (filter (\<lambda>t. \<not> is_sign t) xs)"
  "list_all (sign_over c) (filter (\<lambda>t. \<not> is_sign t) xs)"
  by (simp_all add: list_all_iff)

lemma token_inv_initial: "token_inv (initial_page d)"
  by (simp add: token_inv_def initial_page_def)

lemma token_inv_take_task: "token_inv s \<Longrightarrow> token_inv (take_task i s)"
  by (simp add: token_inv_def take_task_def)

lemma token_inv_console [simp]: "token_inv (s\<lparr>console := c\<rparr>) = token_inv s"
  by (simp add: token_inv_def)

lemma token_inv_onConnect: "token_inv s \<Longrightarrow> token_inv (onConnect s)"
  by (auto simp: token_inv_def handler_defs Let_def split: option.splits)

lemma token_inv_load: "token_inv s \<Longrightarrow> token_inv (load_handler s)"
proof -
  assume "token_inv s"
  then have "token_inv (onConnect (init s))"
    by (intro token_inv_onConnect) (simp add: token_inv_def init_def)
  moreover have "btn_login_disabled (document (onConnect (init s)))"
    by (simp add: init_def)
  ultimately show ?thesis by (simp add: token_inv_def load_handler_def)
qed

lemma selectedAccount_accountsChanged [simp]:
  "selectedAccount (accountsChanged q s) = selectedAccount s"
  by (simp add: accountsChanged_def funpow_field)

lemma token_inv_accountsChanged: "token_inv s \<Longrightarrow> token_inv (accountsChanged q s)"
  by (auto simp: token_inv_def pending_accountsChanged list_all_iff)

lemma token_inv_fetch_resume:
  "token_inv (fetchAccountData_resume_token w xs s)"
  by (simp add: token_inv_def fetchAccountData_resume_token_def fetchAccountData_resume_def
      invalidate_signings_def Let_def)

lemma token_inv_resume:
  assumes inv: "token_inv s" and i: "i < length (pending s)"
    and r: "resume_token (pending s ! i) v (take_task i s) = Some s'"
  shows "token_inv s'"
proof -
  have t: "token_inv (take_task i s)" using inv by (rule token_inv_take_task)
  have k: "sign_for (selectedAccount s) (pending s ! i)
         \<and> sign_over (field_signature_request (document s)) (pending s ! i)"
    using inv i by (auto simp: token_inv_def list_all_length)
  show ?thesis
  proof (cases "pending s ! i")
    case (Await_sign w m a)
    with r obtain g where "s' = record_signing (m, a, g) (onSigned g (take_task i s))"
      by (auto elim: resume.elims)
    with t k Await_sign show ?thesis
      by (simp add: token_inv_def record_signing_def onSigned_def take_task_def)
  next
    case (Await_accounts w)
    with r t show ?thesis
      by (cases w; cases v) (auto simp: token_inv_fetch_resume)
  next
    case (Await_close p)
    with r t show ?thesis by (auto simp: token_inv_def handler_defs take_task_def Let_def split: option.splits)
  next
    case Await_clear
    with r t show ?thesis by (auto simp: token_inv_def handler_defs take_task_def Let_def split: option.splits)
  next
    case Await_connect
    with r t show ?thesis
      by (cases v) (auto simp: token_inv_def handler_defs take_task_def)
  qed
qed

lemma token_inv_abort: "token_inv s \<Longrightarrow> token_inv (abort k s)"
  by (cases k) (simp_all add: token_inv_def handler_defs)

lemma token_inv_step:
  assumes "event_step_token s e = Some s'" and "token_inv s"
  shows "token_inv s'"
proof (cases e)
  case Load
  with assms show ?thesis by (auto simp: token_inv_load split: if_splits)
next
  case Click_switch_account
  with assms show ?thesis by (auto simp: token_inv_onConnect split: if_splits)
next
  case (Accounts_changed q)
  with assms show ?thesis by (auto simp: token_inv_accountsChanged)
next
  case (Resolve i v)
  with assms show ?thesis by (auto intro: token_inv_resume split: if_splits)
next
  case (Reject i)
  with assms show ?thesis by (auto intro: token_inv_abort token_inv_take_task split: if_splits)
qed

lemma reachable_token_inv: "reachable_token s \<Longrightarrow> token_inv s"
  by (induction rule: reachable_token.induct) (auto intro: token_inv_initial token_inv_step)

subsection \<open>The variant keeps the page invariant and shadows the original\<close>

lemma resume_token_cases:
  "resume_token k v s = Some s' \<Longrightarrow>
     resume k v s = Some s'
   \<or> (\<exists>w xs. k = Await_accounts (Some w) \<and> v = JAccounts xs
         \<and> s' = fetchAccountData_resume_token (Some w) xs s)"
  by (induction k v s rule: resume_token.induct) auto

lemma page_inv_invalidate: "page_inv s \<Longrightarrow> page_inv (invalidate_signings s)"
  by (auto simp: page_inv_def form_inv_def invalidate_signings_def Let_def list_ex_iff)

lemma fetchAccountData_resume_token_frame [simp]:
  "document (fetchAccountData_resume_token w xs s) = document (fetchAccountData_resume w xs s)"
  "loaded (fetchAccountData_resume_token w xs s) = loaded (fetchAccountData_resume w xs s)"
  by (simp_all add: fetchAccountData_resume_token_def fetchAccountData_resume_def
      invalidate_signings_def Let_def)

text \<open>
  A step of the variant is a step of the original that ends with the same form and the
  same load status; only the queue can differ.
\<close>

lemma token_step_shadow:
  assumes "event_step_token s e = Some s'"
  shows "\<exists>s''. event_step s e = Some s'' \<and> loaded s'' = loaded s' \<and> document s'' = document s'"
proof (cases e)
  case (Resolve i v)
  with assms have i: "i < length (pending s)"
    and r: "resume_token (pending s ! i) v (take_task i s) = Some s'" by (auto split: if_splits)
  from resume_token_cases [OF r] show ?thesis
  proof
    assume "resume (pending s ! i) v (take_task i s) = Some s'"
    with i Resolve show ?thesis by simp
  next
    assume "\<exists>w xs. pending s ! i = Await_accounts (Some w) \<and> v = JAccounts xs
         \<and> s' = fetchAccountData_resume_token (Some w) xs (take_task i s)"
    with i Resolve show ?thesis by auto
  qed
qed (use assms in simp_all)

lemma page_inv_step_token:
  assumes "event_step_token s e = Some s'" and inv: "page_inv s"
  shows "page_inv s'"
proof (cases e)
  case (Resolve i v)
  with assms have i: "i < length (pending s)"
    and r: "resume_token (pending s ! i) v (take_task i s) = Some s'" by (auto split: if_splits)
  from resume_token_cases [OF r] show ?thesis
  proof
    assume "resume (pending s ! i) v (take_task i s) = Some s'"
    with i Resolve have "event_step s e = Some s'" by simp
    then show ?thesis using inv by (rule page_inv_step)
  next
    assume "\<exists>w xs. pending s ! i = Await_accounts (Some w) \<and> v = JAccounts xs
         \<and> s' = fetchAccountData_resume_token (Some w) xs (take_task i s)"
    then obtain w xs where s': "s' = fetchAccountData_resume_token (Some w) xs (take_task i s)"
      by blast
    have "loaded s" using inv i by (auto simp: page_inv_def split: if_splits)
    then have "loaded (invalidate_signings (take_task i s))"
      by (simp add: invalidate_signings_def)
    with s' page_inv_invalidate [OF page_inv_take_task [OF inv]] show ?thesis
      by (simp add: fetchAccountData_resume_token_def page_inv_fetch_resume)
  qed
qed (use assms page_inv_step [of s e s'] in simp_all)

lemma reachable_token_page_inv: "reachable_token s \<Longrightarrow> page_inv s"
  by (induction rule: reachable_token.induct) (auto intro: page_inv_initial page_inv_step_token)

subsection \<open>Properties of the variant\<close>

text \<open>
  C22. The data-model invariant of section 3 of the specification holds in the variant
  with the request-generation token: whenever the login button is enabled after load,
  the signature in the form is one the wallet returned for a request over the page's
  challenge for the account now selected.
\<close>

theorem token_login_only_with_signature_for_selected:
  assumes "reachable_token s" and "loaded s" and "\<not> btn_login_disabled (document s)"
  shows "(field_signature_request (document s), selectedAccount s, field_signature (document s))
           \<in> set (received s)"
  using reachable_token_inv [OF assms(1)] assms(2,3) by (simp add: token_inv_def)

text \<open>
  C23. The variant refines the same interface machine as the original: every step from a
  reachable page of the variant is the step of the machine its event maps to.
\<close>

theorem token_refines_ui:
  assumes "reachable_token s" and "event_step_token s e = Some s'"
  shows "ui_step (ui_of s) (ui_event_of s e) (ui_of s')"
proof -
  obtain s'' where st: "event_step s e = Some s''" and l: "loaded s'' = loaded s'"
    and d: "document s'' = document s'" using token_step_shadow [OF assms(2)] by blast
  have "ui_of s'' = ui_of s'" using l d by (rule ui_of_frame)
  with ui_step_of_step [OF reachable_token_page_inv [OF assms(1)] st] show ?thesis by simp
qed

subsection \<open>Witnesses\<close>

theorem token_login_only_with_signature_for_selected_witness:
  "\<exists>s. run_token (initial_page demo_form)
         [Load, Resolve 0 (JProvider \<lparr>pid = 1, has_close = False\<rparr>), Resolve 0 (JAccounts [''0xA'']),
          Accounts_changed 1, Resolve 1 (JAccounts [''0xB'']), Resolve 0 (JString ''sigA'')] = Some s
     \<and> reachable_token s \<and> loaded s \<and> \<not> btn_login_disabled (document s)
     \<and> selectedAccount s = Some ''0xB''
     \<and> (''hello'', Some ''0xB'', field_signature (document s)) \<in> set (received s)"
proof -
  let ?es = "[Load, Resolve 0 (JProvider \<lparr>pid = 1, has_close = False\<rparr>), Resolve 0 (JAccounts [''0xA'']),
          Accounts_changed 1, Resolve 1 (JAccounts [''0xB'']), Resolve 0 (JString ''sigA'')]"
  obtain s where r: "run_token (initial_page demo_form) ?es = Some s"
    and l: "loaded s" and b: "\<not> btn_login_disabled (document s)"
    and a: "selectedAccount s = Some ''0xB''"
    and c: "field_signature_request (document s) = ''hello''"
    by (simp add: eval_defs accountsChanged_def fetchAccountData_resume_token_def
        invalidate_signings_def)
  have reach: "reachable_token s" using reachable_token_run [OF r reachable_token.start] .
  from token_login_only_with_signature_for_selected [OF reach l b] r reach l b a c
  show ?thesis by simp
qed

theorem token_refines_ui_witness:
  "\<exists>s'. reachable_token (initial_page demo_form)
     \<and> event_step_token (initial_page demo_form) Load = Some s'
     \<and> ui_of s' = AwaitingAccountChoice
     \<and> ui_step (ui_of (initial_page demo_form)) (ui_event_of (initial_page demo_form) Load) (ui_of s')"
proof -
  have r: "reachable_token (initial_page demo_form)" by (rule reachable_token.start)
  obtain s' where st: "event_step_token (initial_page demo_form) Load = Some s'"
    and u: "ui_of (initial_page demo_form) = Uninitialized" and u': "ui_of s' = AwaitingAccountChoice"
    by (simp add: eval_defs ui_of_def)
  from token_refines_ui [OF r st] r st u u' show ?thesis by auto
qed

end
