(* ===== verification/Spec2Isabelle.thy ===== *)
theory Spec2Isabelle
  imports TokenWidget
begin

text \<open>
  \<^bold>\<open>A verification model of the wallet login widget \<^verbatim>\<open>AcceptInvitePage.js\<close>.\<close>

  The program (\<^verbatim>\<open>src/inception-humanprotocol-adapter/.../page/AcceptInvitePage.js\<close>)
  is a browser script that lets an invited user prove control of a wallet account: it
  opens the Web3Modal wallet dialog, asks the chosen provider for its accounts through a
  web3 client, asks the wallet to sign the challenge the server put into the page, and
  fills the login form with account and signature.  Its parts and how they interact:
  \<^item> three module variables, \<^verbatim>\<open>web3Modal\<close>, \<^verbatim>\<open>provider\<close> and \<^verbatim>\<open>selectedAccount\<close>;
  \<^item> the five form elements it reads and writes;
  \<^item> the handlers \<^verbatim>\<open>init\<close>, \<^verbatim>\<open>fetchAccountData\<close>, \<^verbatim>\<open>onSigned\<close>,
    \<^verbatim>\<open>onSignatureAborted\<close>, \<^verbatim>\<open>onConnect\<close>, the \<^verbatim>\<open>accountsChanged\<close> callback and
    the \<^verbatim>\<open>load\<close> listener;
  \<^item> two collaborators it only calls, the Web3Modal dialog and the web3 client, whose
    promises settle whenever the user and the wallet decide;
  \<^item> the browser's event loop, which interleaves the handlers' continuations.

  \<^bold>\<open>Theories.\<close>
  \<^item> \<open>Prelude\<close>: removing the settled entry of a queue (\<open>remove_nth\<close>) and the
    lemmas on it, repetition of a handler (\<open>f ^^ n\<close>), the collection
    \<open>handler_defs\<close>.
  \<^item> \<open>Page\<close>: the data.  Record \<open>page\<close> holds the module variables (as \<open>option\<close>s:
    \<^verbatim>\<open>undefined\<close>/\<^verbatim>\<open>null\<close> is \<open>None\<close>), the form (record \<open>form\<close>), the queue
    \<open>pending\<close> of suspended continuations (datatype \<open>task\<close>, one constructor per
    \<^verbatim>\<open>await\<close> or \<^verbatim>\<open>.then\<close> of the script), the registered \<^verbatim>\<open>accountsChanged\<close>
    handlers, the calls made to the collaborators (\<open>ext_call\<close>) and the console
    output (\<open>log_line\<close>).  The field \<open>received\<close> is instrumentation, not a variable of
    the script: the signatures the wallet returned.
  \<^item> \<open>Widget\<close>: one definition per synchronous segment of a handler, in source order:
    \<open>init\<close> (lines 40--58), \<open>fetchAccountData\<close> and \<open>fetchAccountData_resume\<close>
    (60--74, split at the \<^verbatim>\<open>await\<close> of line 64), \<open>onSigned\<close> (76--81),
    \<open>onSignatureAborted\<close> (83--88), \<open>onConnect\<close>, \<open>open_dialog\<close>,
    \<open>onConnect_closed\<close>, \<open>onConnect_cleared\<close>, \<open>onConnect_connected\<close>,
    \<open>onConnect_failed\<close> (94--119, split at its three \<^verbatim>\<open>await\<close>s),
    \<open>accountsChanged\<close> (114--116), \<open>load_handler\<close> (124--128).  A handler
    suspends by appending a task; a rejection no handler catches is
    \<open>unhandled_rejection\<close>.
  \<^item> \<open>EventLoop\<close>: events (\<open>Load\<close>, \<open>Click_switch_account\<close>,
    \<open>Accounts_changed\<close>, \<open>Resolve i v\<close>, \<open>Reject i\<close> of the \<open>i\<close>-th pending
    promise), the continuation run on fulfilment (\<open>resume\<close>) and on rejection
    (\<open>abort\<close>), the deterministic step \<open>event_step\<close> (\<open>None\<close> when the event cannot
    happen), runs, and the \<open>inductive\<close> set of reachable pages, which contains every
    interleaving the environment can choose.  The invariant \<open>page_inv\<close> is proved for
    each continuation and lifted to reachable pages by rule induction.
  \<^item> \<open>UiSpec\<close>: the user-interface machine of the specification (section 4 and the
    race accepted in section 5) as an \<open>inductive\<close> step relation labelled by
    interface events (\<open>ui_event\<close>, with a skip event), the abstraction \<open>ui_of\<close> by the
    status text, the event mapping \<open>ui_event_of\<close>, and the simulation of the widget by
    the machine.
  \<^item> \<open>Traces\<close>: properties of whole executions read off the queue and the call trace
    (the invariant \<open>trace_inv\<close>: queue well-formedness, challenge-only signing, call
    budgets, the shown account), the dialog-safety of single steps, and the constancy
    of the challenge along runs.
  \<^item> \<open>TokenWidget\<close>: the repair section 9 of the specification proposes, a
    request-generation token that invalidates stale signature callbacks.  It is not code
    of the repository and is modelled from the specification: only the
    \<^verbatim>\<open>getAccounts\<close> continuation changes (\<open>fetchAccountData_resume_token\<close>, which
    drops the earlier signature requests with \<open>invalidate_signings\<close>), giving
    \<open>resume_token\<close>, \<open>event_step_token\<close> and \<open>reachable_token\<close>.
  \<^item> this theory: properties of whole runs that span the components.

  \<^bold>\<open>What is shown.\<close>
  The form is always consistent after load: a disabled button goes with an empty
  signature, the button is enabled exactly with the thank-you text, and only with a
  signature the wallet returned (C1).  The intended flow reaches that state for every
  input (C2); a rejected signature always disables (C3); loading resets the form (C8).  A switch closes a closable provider and clears the
  cache before it opens the dialog (C4).  Settling promises alone always ends: a run of
  settlements is no longer than the backlog (C9), and the environment can always drain
  the queue (C10).  The widget refines the specified interface machine under an
  event mapping: each step is the machine step of its event, so a returned signature
  always leads to the signed state and a rejected one to the refused state (C6).
  The development also shows where the code departs from the specification or from its
  intent, each as a reachable run: a stale signature enables login for the old account
  while the form shows the new one (C5, the race section 5 names); a dismissed switch
  leaves no provider while the old login stays enabled (C7); the prompt to choose an
  account never comes back, contrary to the specified loop back (C14); an empty account
  list puts the text \<^verbatim>\<open>"undefined"\<close> into the form and requests a signature for an
  undefined account (C11); handlers on an injected provider accumulate, so one account
  change triggers several fetches (C12); and two quick switch clicks can drop a freshly
  connected provider (C13).

  Over whole executions: every suspended continuation holds a provider the widget subscribed to (C15); the
  wallet is only asked to sign the challenge the server delivered, which is never
  overwritten (C16); a step that opens the wallet dialog never leaves a closable
  provider held (C17); there are no more \<^verbatim>\<open>accountsChanged\<close> handlers than dialogs
  and no more signature prompts than account queries (C18); every rejection other than
  the signature's only logs (C19); the username field shows the selected account (C20);
  a rejected \<^verbatim>\<open>provider.close()\<close> stalls a switch with the old provider still held
  (C21).  The token variant of section 9 keeps the data-model invariant the original
  breaks: an enabled login button shows a signature for the selected account (C22); and
  it refines the same interface machine under the same event mapping (C23).

  The event loop lets any pending promise settle next and any user or wallet event come
  in between.  This over-approximates a browser, which runs the microtasks of a settled
  promise promptly, so the invariants (C1, C6, C9) hold for every real schedule.  The
  runs that exhibit the problems (C5, C7, C12, C13) use only schedules a user can
  produce: an account change or a second click while a wallet prompt is open.

  \<^bold>\<open>Bounds.\<close>
  No fuel is needed: every handler segment is straight-line code, so \<open>event_step\<close> is
  a total function; waiting is modelled by the queue, not by recursion.  The only
  unbounded behaviour is the environment's choice of events, and termination of the
  promise chains is the measure \<open>backlog\<close> (weights 5 to 1 along the chain close,
  clear, connect, getAccounts, sign).

  \<^bold>\<open>Not modelled.\<close>
  The libraries themselves (Web3Modal, WalletConnectProvider, web3, the wallet): they
  are the environment, and only the values their promises settle with are modelled; a
  fulfilment of a kind the library never produces is not an event.  \<^verbatim>\<open>evmChains\<close>
  (line 21) is never used.  The argument printed by \<^verbatim>\<open>console.log\<close> and the accounts
  passed to the \<^verbatim>\<open>accountsChanged\<close> callback are ignored by the script, and so by the
  model.  The rest of the page and the server-side verification of the signature are
  outside the script.
\<close>


text \<open>
  C2. The intended flow, for any page, provider, account list and signature: after the
  page loads, the dialog returns a provider, the wallet reports accounts starting with
  \<open>a\<close> and signs, the login button is enabled, the form holds the signature and the
  account, and the widget made exactly the three collaborator calls of the flow.
\<close>

theorem accept_invite_happy_path:
  "\<exists>s'. run (initial_page d)
          [Load, Resolve 0 (JProvider p), Resolve 0 (JAccounts (a # others)), Resolve 0 (JString g)]
        = Some s'
     \<and> \<not> btn_login_disabled (document s') \<and> field_signature (document s') = g
     \<and> username (document s') = a \<and> selectedAccount s' = Some a
     \<and> waiting_for_signature_msg (document s') = msg_thanks
     \<and> calls s' = [Call_connect, Call_getAccounts (Some p),
                   Call_personal_sign (field_signature_request d) (Some a)]
     \<and> received s' = [(field_signature_request d, Some a, g)] \<and> pending s' = []"
  by (simp add: handler_defs Let_def initial_page_def take_task_def record_signing_def)

text \<open>
  C8. Loading the page resets the form (empty signature, disabled login button, prompt
  to choose an account), builds the dialog configuration with the placeholder
  \<^verbatim>\<open>infuraId\<close>, and opens the wallet dialog.
\<close>

theorem load_initialises_page:
  "\<exists>s'. event_step (initial_page d) Load = Some s'
     \<and> btn_login_disabled (document s') \<and> field_signature (document s') = ''''
     \<and> waiting_for_signature_msg (document s') = msg_choose
     \<and> web3Modal s' = Some \<lparr>cacheProvider = False, infuraId = ''DUMMY-ID''\<rparr>
     \<and> calls s' = [Call_connect] \<and> pending s' = [Await_connect]
     \<and> console s' = [Log_opening_dialog] \<and> loaded s'"
  by (simp add: handler_defs Let_def initial_page_def default_modal_def)

text \<open>
  C4. Switching accounts while holding a provider that can be closed first only closes
  it; the cached provider is cleared when the close has settled; the provider is dropped
  and the wallet dialog opened only when the clearing has settled.
\<close>

theorem switch_account_closes_before_dialog:
  assumes "loaded s" and "provider s = Some p" and "has_close p" and "web3Modal s = Some m"
  shows "\<exists>s1 s2 s3.
     event_step s Click_switch_account = Some s1
     \<and> calls s1 = calls s @ [Call_close (pid p)] \<and> pending s1 = pending s @ [Await_close p]
     \<and> event_step s1 (Resolve (length (pending s)) JUndefined) = Some s2
     \<and> calls s2 = calls s1 @ [Call_clearCachedProvider] \<and> pending s2 = pending s @ [Await_clear]
     \<and> event_step s2 (Resolve (length (pending s)) JUndefined) = Some s3
     \<and> calls s3 = calls s2 @ [Call_connect] \<and> pending s3 = pending s @ [Await_connect]
     \<and> provider s3 = None"
  using assms by (simp add: handler_defs Let_def take_task_def)

text \<open>
  C7. If the user dismisses the wallet dialog of a switch, the closed provider is gone
  for good, while the form, the selected account and the login button stay as they were:
  failure does not leave the prior state unchanged, as the specification says.
\<close>

theorem cancelled_switch_drops_provider:
  assumes "loaded s" and "provider s = Some p" and "has_close p" and "web3Modal s = Some m"
  shows "\<exists>s'. run s [Click_switch_account, Resolve (length (pending s)) JUndefined,
                     Resolve (length (pending s)) JUndefined, Reject (length (pending s))] = Some s'
     \<and> provider s' = None \<and> document s' = document s \<and> selectedAccount s' = selectedAccount s
     \<and> pending s' = pending s"
  using assms by (simp add: handler_defs Let_def take_task_def)

text \<open>
  C5. The race the specification accepts, shown reachable: the account changes while a
  signature request for the old account is outstanding, and the old signature arrives
  last.  The login button is then enabled with a signature made for account
  \<^verbatim>\<open>0xA\<close> while the form and \<^verbatim>\<open>selectedAccount\<close> name \<^verbatim>\<open>0xB\<close>.
\<close>

theorem stale_signature_enables_login:
  "\<exists>s. reachable s \<and> \<not> btn_login_disabled (document s)
     \<and> received s = [(''hello'', Some ''0xA'', field_signature (document s))]
     \<and> selectedAccount s = Some ''0xB'' \<and> username (document s) = ''0xB''"
proof -
  let ?p = "\<lparr>pid = 1, has_close = False\<rparr>"
  let ?es = "[Load, Resolve 0 (JProvider ?p), Resolve 0 (JAccounts [''0xA'']),
              Accounts_changed 1, Resolve 1 (JAccounts [''0xB'']), Resolve 0 (JString ''sigA'')]"
  obtain s where r: "run (initial_page demo_form) ?es = Some s"
    and props: "\<not> btn_login_disabled (document s)
     \<and> received s = [(''hello'', Some ''0xA'', field_signature (document s))]
     \<and> selectedAccount s = Some ''0xB'' \<and> username (document s) = ''0xB''"
    by (simp add: eval_defs accountsChanged_def)
  have "reachable s" using reachable_run [OF r reachable.start] .
  with props show ?thesis by blast
qed

text \<open>
  C12. Subscriptions pile up: an injected provider has no \<^verbatim>\<open>close\<close>, so switching
  back to it registers a second \<^verbatim>\<open>accountsChanged\<close> handler, and one account change then
  fetches the accounts twice (and asks for two signatures).
\<close>

theorem injected_provider_handlers_accumulate:
  "\<exists>s s'. reachable s \<and> event_step s (Accounts_changed 2) = Some s'
     \<and> calls s' = calls s @ [Call_getAccounts (provider s), Call_getAccounts (provider s)]"
proof -
  let ?q = "\<lparr>pid = 2, has_close = False\<rparr>"
  let ?es = "[Load, Resolve 0 (JProvider ?q), Resolve 0 (JAccounts [''0xA'']),
              Click_switch_account, Resolve 1 (JProvider ?q)]"
  obtain s where r: "run (initial_page demo_form) ?es = Some s"
    and c: "count_list (subscriptions s) 2 = 2"
    by (simp add: eval_defs)
  have "reachable s" using reachable_run [OF r reachable.start] .
  moreover have "calls (accountsChanged 2 s) =
                 calls s @ [Call_getAccounts (provider s), Call_getAccounts (provider s)]"
    using c by (simp add: accountsChanged_def numeral_2_eq_2 fetchAccountData_def)
  ultimately show ?thesis by auto
qed

text \<open>
  C13. Two switch clicks in quick succession run two \<^verbatim>\<open>onConnect\<close> chains at once.
  The second chain closes the same provider again and, after the first chain has
  connected a new provider \<open>q\<close>, sets \<^verbatim>\<open>provider = null\<close>; if the user dismisses
  the second dialog, the widget holds no provider although \<open>q\<close> is connected and
  subscribed, and an account change of \<open>q\<close> asks a client without provider for the
  accounts.
\<close>

theorem double_switch_drops_new_provider:
  "\<exists>s s'. reachable s \<and> provider s = None \<and> 2 \<in> set (subscriptions s)
     \<and> count_list (calls s) (Call_close 1) = 2
     \<and> \<not> list_ex (\<lambda>t. t = Await_connect \<or> t = Await_clear) (pending s)
     \<and> event_step s (Accounts_changed 2) = Some s'
     \<and> calls s' = calls s @ [Call_getAccounts None]"
proof -
  let ?p = "\<lparr>pid = 1, has_close = True\<rparr>"
  let ?q = "\<lparr>pid = 2, has_close = True\<rparr>"
  let ?es = "[Load, Resolve 0 (JProvider ?p), Resolve 0 (JAccounts [''0xA'']),
              Click_switch_account, Resolve 1 JUndefined, Click_switch_account,
              Resolve 1 JUndefined, Resolve 2 (JProvider ?q), Resolve 1 JUndefined,
              Resolve 2 JUndefined, Reject 2]"
  obtain s where r: "run (initial_page demo_form) ?es = Some s"
    and props: "provider s = None \<and> 2 \<in> set (subscriptions s)
     \<and> count_list (calls s) (Call_close 1) = 2
     \<and> \<not> list_ex (\<lambda>t. t = Await_connect \<or> t = Await_clear) (pending s)
     \<and> count_list (subscriptions s) 2 = 1"
    by (simp add: eval_defs)
  have "reachable s" using reachable_run [OF r reachable.start] .
  moreover have "calls (accountsChanged 2 s) = calls s @ [Call_getAccounts None]"
    using props by (simp add: accountsChanged_def fetchAccountData_def)
  ultimately show ?thesis using props by auto
qed

text \<open>
  C21. A switch whose \<^verbatim>\<open>provider.close()\<close> is rejected stops there: the rejection is
  unhandled, no cache is cleared and no dialog opened, and the widget keeps holding the
  provider it tried to close, with the form unchanged.
\<close>

theorem rejected_close_stalls_switch:
  assumes "loaded s" and "provider s = Some p" and "has_close p" and "web3Modal s = Some m"
  shows "\<exists>s'. run s [Click_switch_account, Reject (length (pending s))] = Some s'
     \<and> provider s' = Some p \<and> calls s' = calls s @ [Call_close (pid p)]
     \<and> console s' = console s @ [Log_unhandled_rejection]
     \<and> pending s' = pending s \<and> document s' = document s"
  using assms by (simp add: handler_defs Let_def take_task_def)

subsection \<open>Witnesses\<close>

theorem switch_account_closes_before_dialog_witness:
  "\<exists>s1 s2 s3.
     event_step ((demo_page [])\<lparr>provider := Some demo_provider\<rparr>) Click_switch_account = Some s1
     \<and> calls s1 = [Call_close 1] \<and> event_step s1 (Resolve 0 JUndefined) = Some s2
     \<and> event_step s2 (Resolve 0 JUndefined) = Some s3
     \<and> calls s3 = [Call_close 1, Call_clearCachedProvider, Call_connect] \<and> provider s3 = None"
proof -
  let ?s = "(demo_page [])\<lparr>provider := Some demo_provider\<rparr>"
  have h: "loaded ?s" "provider ?s = Some demo_provider" "has_close demo_provider"
    "web3Modal ?s = Some default_modal" by (simp_all add: eval_defs)
  from switch_account_closes_before_dialog [OF h] show ?thesis by (simp add: eval_defs)
qed

theorem cancelled_switch_drops_provider_witness:
  "\<exists>s'. run ((demo_page [])\<lparr>provider := Some demo_provider\<rparr>)
          [Click_switch_account, Resolve 0 JUndefined, Resolve 0 JUndefined, Reject 0] = Some s'
     \<and> provider s' = None \<and> document s' = demo_form"
proof -
  let ?s = "(demo_page [])\<lparr>provider := Some demo_provider\<rparr>"
  have h: "loaded ?s" "provider ?s = Some demo_provider" "has_close demo_provider"
    "web3Modal ?s = Some default_modal" by (simp_all add: eval_defs)
  from cancelled_switch_drops_provider [OF h] show ?thesis by (simp add: eval_defs)
qed


theorem rejected_close_stalls_switch_witness:
  "\<exists>s'. run ((demo_page [])\<lparr>provider := Some demo_provider\<rparr>)
          [Click_switch_account, Reject 0] = Some s'
     \<and> provider s' = Some demo_provider \<and> calls s' = [Call_close 1]
     \<and> console s' = [Log_unhandled_rejection]"
proof -
  let ?s = "(demo_page [])\<lparr>provider := Some demo_provider\<rparr>"
  have h: "loaded ?s" "provider ?s = Some demo_provider" "has_close demo_provider"
    "web3Modal ?s = Some default_modal" by (simp_all add: eval_defs)
  from rejected_close_stalls_switch [OF h] show ?thesis by (simp add: eval_defs)
qed

end
